theory Spec2Isabelle
  imports Main "HOL-Library.Word"
begin

unbundle bit_operations_syntax

section \<open>Data model of file-qoi.c\<close>

type_synonym guint8 = "8 word"
type_synonym guint32 = "32 word"

text \<open>The struct \<open>QoiPixel\<close>: four 8-bit channels.\<close>

record QoiPixel =
  red :: guint8
  green :: guint8
  blue :: guint8
  alpha :: guint8

text \<open>The enum \<open>QoiColorspace\<close> (its last enumerator only counts the others).\<close>

datatype QoiColorspace = QOI_COLORSPACE_SRGB | QOI_COLORSPACE_LINEAR

text \<open>
  The struct \<open>QoiImage\<close>. The pixel buffer is a list; \<open>pixels[i]\<close> is the \<open>i\<close>-th element.
\<close>

record QoiImage =
  pixels :: "QoiPixel list"
  width :: guint32
  height :: guint32
  colorspace :: QoiColorspace
  has_alpha :: bool

text \<open>
  \<open>load_image\<close> reports a failure with a message and returns \<open>false\<close>. Each message is
  one constructor here:
  \<^item> "Could not read from file. %s" is \<open>ReadFailure\<close>;
  \<^item> "The file ends unexpectedly." is \<open>UnexpectedEof\<close>;
  \<^item> "'%s' is not a valid QOI file." is \<open>BadMagic\<close>;
  \<^item> "Unsupported or unknown number of channels: %u." is \<open>UnsupportedChannels\<close>;
  \<^item> "Unsupported or unknown colorspace: %u." is \<open>UnsupportedColorspace\<close>;
  \<^item> "Invalid or unsupported width: %u." and "... height: %u." are \<open>InvalidDimensions\<close>;
  \<^item> "Failed to acquire storage for pixels." is \<open>OutOfMemory\<close>;
  \<^item> "Too many encoded pixels." is \<open>InvalidRunLength\<close>;
  \<^item> "Invalid end marker." is \<open>InvalidEndMarker\<close>;
  \<^item> "File contains data past the end marker." is \<open>TrailingData\<close>.
\<close>

datatype error =
  ReadFailure | UnexpectedEof | BadMagic | UnsupportedChannels | UnsupportedColorspace
  | InvalidDimensions | OutOfMemory | InvalidRunLength | InvalidEndMarker | TrailingData

definition QOI_HEADER_SIZE :: nat where
  "QOI_HEADER_SIZE = 14"

definition QOI_END_MARKER_SIZE :: nat where
  "QOI_END_MARKER_SIZE = 8"

definition QOI_MAX_BYTES_PER_PIXEL :: nat where
  "QOI_MAX_BYTES_PER_PIXEL = 5"

definition QOI_MAX_RUN_LENGTH :: nat where
  "QOI_MAX_RUN_LENGTH = 62"

definition QOI_END_MARKER :: "guint8 list" where
  "QOI_END_MARKER = [0x00, 0x00, 0x00, 0x00, 0x00, 0x00, 0x00, 0x01]"

text \<open>The four characters \<open>qoif\<close> as bytes.\<close>

definition qoi_magic :: "guint8 list" where
  "qoi_magic = [0x71, 0x6F, 0x69, 0x66]"

text \<open>
  \<open>guint32_swap_local_and_big_endian\<close>, the branch of a little-endian host: the four
  bytes of the value in reverse order.
\<close>

definition guint32_swap_local_and_big_endian :: "guint32 \<Rightarrow> guint32" where
  "guint32_swap_local_and_big_endian v =
     (drop_bit 24 (v AND 0xFF000000)) OR
     (drop_bit 8 (v AND 0x00FF0000)) OR
     (push_bit 8 (v AND 0x0000FF00)) OR
     (push_bit 24 (v AND 0x000000FF))"

text \<open>
  A \<open>guint32\<close> field of the header struct is read from, and written to, four consecutive
  bytes of the file buffer in the host's byte order (little-endian: lowest byte first).
\<close>

definition load_guint32 :: "guint8 \<Rightarrow> guint8 \<Rightarrow> guint8 \<Rightarrow> guint8 \<Rightarrow> guint32" where
  "load_guint32 b0 b1 b2 b3 =
     ucast b0 OR push_bit 8 (ucast b1) OR push_bit 16 (ucast b2) OR push_bit 24 (ucast b3)"

definition store_guint32 :: "guint32 \<Rightarrow> guint8 list" where
  "store_guint32 v = [ucast v, ucast (drop_bit 8 v), ucast (drop_bit 16 v), ucast (drop_bit 24 v)]"

text \<open>\<open>qoi_pixel_equal\<close> compares the four channels.\<close>

definition qoi_pixel_equal :: "QoiPixel \<Rightarrow> QoiPixel \<Rightarrow> bool" where
  "qoi_pixel_equal a b =
     (red a = red b \<and> green a = green b \<and> blue a = blue b \<and> alpha a = alpha b)"

text \<open>
  \<open>qoi_pixel_hash\<close>: the channels are promoted to \<open>int\<close> before the arithmetic, so the sum
  (at most 255 * 26) does not wrap.
\<close>

definition qoi_pixel_hash :: "QoiPixel \<Rightarrow> nat" where
  "qoi_pixel_hash pixel =
     (unat (red pixel) * 3 + unat (green pixel) * 5 + unat (blue pixel) * 7
        + unat (alpha pixel) * 11) mod 64"

section \<open>The decoder: \<open>load_image\<close>\<close>

text \<open>
  The file is a list of bytes. \<open>file_size\<close> is its length and \<open>file_index\<close> the number of
  bytes already consumed, so the functions below receive the bytes from \<open>file_index\<close> on.
  Both are \<open>gint\<close> values in the source; the model counts with \<open>nat\<close>, which agrees with the
  source for files below \<open>2 ^ 31 - 8\<close> bytes. The file is taken to open and to be read
  without error; the progress calls are not part of the model.
\<close>

text \<open>
  \<open>load_image\<close> from the buffer for the file's bytes to the height check. The buffer is
  obtained with \<open>g_try_malloc(file_size)\<close>, which returns no buffer for a size of 0: an
  empty file leaves \<open>file_data\<close> null, and \<open>load_image\<close> returns with "Could not read from
  file." before any header check. Then come the header checks, from the first size check on.
  The struct is laid over the first bytes of the buffer: \<open>magic\<close> at offset 0,
  \<open>width\<close> at 4, \<open>height\<close> at 8, \<open>channels\<close> at 12, \<open>colorspace\<close> at 13. The fields of
  \<open>result\<close> that are set are returned in a \<open>QoiImage\<close> whose buffer is still empty.
  \<open>GIMP_MAX_IMAGE_SIZE\<close> comes from a header of the host application and is a parameter.
\<close>

definition parse_header :: "nat \<Rightarrow> guint8 list \<Rightarrow> error + QoiImage" where
  "parse_header GIMP_MAX_IMAGE_SIZE file_data =
     (if file_data = [] then Inl ReadFailure
      else if length file_data < 0 + QOI_HEADER_SIZE then Inl UnexpectedEof
      else if take 4 file_data \<noteq> qoi_magic then Inl BadMagic
      else
        let channels = file_data ! 12;
            colorspace_byte = file_data ! 13;
            header_width = load_guint32 (file_data ! 4) (file_data ! 5) (file_data ! 6) (file_data ! 7);
            header_height = load_guint32 (file_data ! 8) (file_data ! 9) (file_data ! 10) (file_data ! 11)
        in
        if channels \<noteq> 3 \<and> channels \<noteq> 4 then Inl UnsupportedChannels
        else if colorspace_byte \<noteq> 0 \<and> colorspace_byte \<noteq> 1 then Inl UnsupportedColorspace
        else
          let w = guint32_swap_local_and_big_endian header_width;
              h = guint32_swap_local_and_big_endian header_height
          in
          if w = 0 \<or> unat w > GIMP_MAX_IMAGE_SIZE then Inl InvalidDimensions
          else if h = 0 \<or> unat h > GIMP_MAX_IMAGE_SIZE then Inl InvalidDimensions
          else Inr \<lparr> pixels = [], width = w, height = h,
                     colorspace = (if colorspace_byte = 0 then QOI_COLORSPACE_SRGB
                                   else QOI_COLORSPACE_LINEAR),
                     has_alpha = (channels = 4) \<rparr>)"

text \<open>
  The state of the chunk loop: the register \<open>current_pixel\<close>, the 64 slots of \<open>array\<close>, and
  the pixels stored through \<open>result->pixels[pixel_index++]\<close> so far, in order of
  \<open>pixel_index\<close>; \<open>pixel_index\<close> is the length of \<open>written\<close>.
\<close>

record decoder =
  current_pixel :: QoiPixel
  array :: "QoiPixel list"
  written :: "QoiPixel list"

definition decoder_init :: decoder where
  "decoder_init =
     \<lparr> current_pixel = \<lparr> red = 0, green = 0, blue = 0, alpha = 255 \<rparr>,
       array = replicate 64 \<lparr> red = 0, green = 0, blue = 0, alpha = 0 \<rparr>,
       written = [] \<rparr>"

text \<open>
  What the RGB, RGBA, DIFF and LUMA branches do once the new pixel is known: store it in the
  buffer, in the slot of its hash and in the register.
\<close>

definition store_pixel :: "QoiPixel \<Rightarrow> decoder \<Rightarrow> decoder" where
  "store_pixel px st =
     st \<lparr> current_pixel := px,
          array := (array st) [qoi_pixel_hash px := px],
          written := written st @ [px] \<rparr>"

text \<open>How one pass through the body of the \<open>while\<close> loop ends.\<close>

datatype chunk_result =
  Failed error
  | Break
  | Continue decoder "guint8 list"

text \<open>
  The body of the \<open>while\<close> loop. \<open>rest\<close> holds the bytes from \<open>file_index\<close> on, so
  \<open>rest ! 0\<close> is the tag. \<open>Continue\<close> carries the new state and the bytes that remain;
  after \<open>Break\<close> only the tag has been consumed. The deltas are \<open>gint\<close> values, and adding
  one to a channel converts the sum back to 8 bits.
\<close>

definition load_chunk :: "nat \<Rightarrow> guint8 list \<Rightarrow> decoder \<Rightarrow> chunk_result" where
  "load_chunk max_pixel_index rest st =
     (if length rest < 0 + QOI_END_MARKER_SIZE then Failed UnexpectedEof
      else
        let tag = rest ! 0; cur = current_pixel st in
        if tag = 0xFE then
          Continue (store_pixel (cur \<lparr> red := rest ! 1, green := rest ! 2, blue := rest ! 3 \<rparr>) st)
            (drop 4 rest)
        else if tag = 0xFF then
          Continue (store_pixel (cur \<lparr> red := rest ! 1, green := rest ! 2, blue := rest ! 3,
                                      alpha := rest ! 4 \<rparr>) st)
            (drop 5 rest)
        else if tag AND 0xC0 = 0x00 then
          (if take QOI_END_MARKER_SIZE rest = QOI_END_MARKER then Break
           else
             let index = tag AND 0x3F; px = array st ! unat index in
             Continue (st \<lparr> current_pixel := px, written := written st @ [px] \<rparr>) (drop 1 rest))
        else if tag AND 0xC0 = 0x40 then
          let dr = uint (drop_bit 4 tag AND 0x03) + (- 2);
              dg = uint (drop_bit 2 tag AND 0x03) + (- 2);
              db = uint (drop_bit 0 tag AND 0x03) + (- 2)
          in
          Continue (store_pixel (cur \<lparr> red := word_of_int (uint (red cur) + dr),
                                      green := word_of_int (uint (green cur) + dg),
                                      blue := word_of_int (uint (blue cur) + db) \<rparr>) st)
            (drop 1 rest)
        else if tag AND 0xC0 = 0x80 then
          let dr_db = rest ! 1;
              dg = uint (tag AND 0x3F) + (- 32);
              dr = uint (drop_bit 4 dr_db AND 0x0F) + (- 8) + dg;
              db = uint (drop_bit 0 dr_db AND 0x0F) + (- 8) + dg
          in
          Continue (store_pixel (cur \<lparr> red := word_of_int (uint (red cur) + dr),
                                      green := word_of_int (uint (green cur) + dg),
                                      blue := word_of_int (uint (blue cur) + db) \<rparr>) st)
            (drop 2 rest)
        else if tag AND 0xC0 = 0xC0 then
          let run = (tag AND 0x3F) + 1 in
          if length (written st) > max_pixel_index + unat run then Failed InvalidRunLength
          else Continue (st \<lparr> written := written st @ replicate (unat run) cur \<rparr>) (drop 1 rest)
        else Continue st (drop 1 rest))"

text \<open>
  The \<open>while\<close> loop. It returns the state and the bytes from \<open>file_index\<close> on, at the moment
  the loop is left.
\<close>

function load_chunks :: "nat \<Rightarrow> guint8 list \<Rightarrow> decoder \<Rightarrow> error + (decoder \<times> guint8 list)" where
  "load_chunks max_pixel_index rest st =
     (if length (written st) < max_pixel_index then
        (case load_chunk max_pixel_index rest st of
           Failed e \<Rightarrow> Inl e
         | Break \<Rightarrow> Inr (st, drop 1 rest)
         | Continue st' rest' \<Rightarrow> load_chunks max_pixel_index rest' st')
      else Inr (st, rest))"
  by pat_completeness auto

lemma load_chunk_consumes:
  "load_chunk n rest st = Continue st' rest' \<Longrightarrow> length rest' < length rest"
  by (auto simp add: load_chunk_def Let_def QOI_END_MARKER_SIZE_def split: if_splits)

termination load_chunks
  by (relation "measure (\<lambda>(n, rest, st). length rest)") (auto dest: load_chunk_consumes)

declare load_chunks.simps [simp del]

text \<open>
  \<open>load_image\<close> from the header checks on. \<open>max_pixel_index\<close> is the product of the two
  32-bit dimensions, so it wraps; \<open>g_try_malloc\<close> returns no buffer for a size of 0, and any
  other allocation is taken to succeed. After the loop come the three checks of the trailer.
\<close>

definition load_image :: "nat \<Rightarrow> guint8 list \<Rightarrow> error + QoiImage" where
  "load_image GIMP_MAX_IMAGE_SIZE file_data =
     (case parse_header GIMP_MAX_IMAGE_SIZE file_data of
        Inl e \<Rightarrow> Inl e
      | Inr result \<Rightarrow>
          let max_pixel_index = unat (width result * height result) in
          if max_pixel_index = 0 then Inl OutOfMemory
          else
            (case load_chunks max_pixel_index (drop QOI_HEADER_SIZE file_data) decoder_init of
               Inl e \<Rightarrow> Inl e
             | Inr (st, rest) \<Rightarrow>
                 if length rest < 0 + QOI_END_MARKER_SIZE then Inl UnexpectedEof
                 else if take QOI_END_MARKER_SIZE rest \<noteq> QOI_END_MARKER then Inl InvalidEndMarker
                 else if drop QOI_END_MARKER_SIZE rest \<noteq> [] then Inl TrailingData
                 else Inr (result \<lparr> pixels := written st \<rparr>)))"

section \<open>The encoder: \<open>save_image\<close>\<close>

text \<open>
  The inner \<open>while (process_next)\<close> loop of the run branch. The list starts at
  \<open>image.pixels[pixel_index]\<close>; the result is the bytes appended to the file and the pixels
  from the new \<open>pixel_index\<close> on. \<open>run\<close> is reset when it reaches 62, so the 8-bit counter
  never wraps.
\<close>

fun save_run :: "QoiPixel \<Rightarrow> nat \<Rightarrow> QoiPixel list \<Rightarrow> guint8 list \<times> QoiPixel list" where
  "save_run previous_pixel run [] = ([], [])"
| "save_run previous_pixel run (p # rest) =
     (let run1 = run + 1;
          process_next = (rest \<noteq> [] \<and> qoi_pixel_equal previous_pixel (hd rest));
          flush = (run1 = QOI_MAX_RUN_LENGTH \<or> \<not> process_next);
          bytes = (if flush then [0xC0 OR of_nat (run1 - 1)] else []);
          run2 = (if flush then 0 else run1)
      in
      if process_next then
        (case save_run previous_pixel run2 rest of (bytes2, todo2) \<Rightarrow> (bytes @ bytes2, todo2))
      else (bytes, rest))"

text \<open>
  The bytes of the branch taken when alpha is not encoded or has not changed: a DIFF chunk,
  a LUMA chunk or an RGB chunk. The differences are taken on the promoted \<open>int\<close> values, so
  they lie between -255 and 255 and do not wrap; the tag is converted to 8 bits when stored.
\<close>

definition save_delta :: "QoiPixel \<Rightarrow> QoiPixel \<Rightarrow> guint8 list" where
  "save_delta previous current =
     (let dr = uint (red current) - uint (red previous);
          dg = uint (green current) - uint (green previous);
          db = uint (blue current) - uint (blue previous);
          dr_dg = dr - dg;
          db_dg = db - dg
      in
      if - 2 \<le> dr \<and> dr \<le> 1 \<and> - 2 \<le> dg \<and> dg \<le> 1 \<and> - 2 \<le> db \<and> db \<le> 1 then
        [word_of_int (0x40 OR push_bit 4 (dr - (- 2)) OR push_bit 2 (dg - (- 2))
                        OR push_bit 0 (db - (- 2)))]
      else if - 32 \<le> dg \<and> dg \<le> 31 \<and> - 8 \<le> dr_dg \<and> dr_dg \<le> 7 \<and> - 8 \<le> db_dg \<and> db_dg \<le> 7 then
        [word_of_int (0x80 OR (dg - (- 32))),
         word_of_int (push_bit 4 (dr_dg - (- 8)) OR push_bit 0 (db_dg - (- 8)))]
      else
        [0xFE, red current, green current, blue current])"

text \<open>
  The body of the \<open>for\<close> loop, entered with \<open>pixel_index < max_pixel_index\<close>. The list
  starts at \<open>image.pixels[pixel_index]\<close>. The result is the bytes appended to the file, the
  new \<open>previous_pixel\<close> and \<open>array\<close>, and the pixels from the new \<open>pixel_index\<close> on.
\<close>

definition save_chunk ::
  "bool \<Rightarrow> QoiPixel \<Rightarrow> QoiPixel list \<Rightarrow> QoiPixel list
     \<Rightarrow> guint8 list \<times> QoiPixel \<times> QoiPixel list \<times> QoiPixel list" where
  "save_chunk image_has_alpha previous_pixel cache todo =
     (let current_pixel = hd todo;
          hash = qoi_pixel_hash current_pixel
      in
      if qoi_pixel_equal previous_pixel current_pixel then
        (case save_run previous_pixel 0 todo of
           (bytes, todo') \<Rightarrow> (bytes, previous_pixel, cache, todo'))
      else if qoi_pixel_equal current_pixel (cache ! hash) then
        ([0x00 OR of_nat hash], current_pixel, cache, tl todo)
      else if \<not> image_has_alpha \<or> alpha current_pixel = alpha previous_pixel then
        (save_delta previous_pixel current_pixel, current_pixel,
         cache [hash := current_pixel], tl todo)
      else
        ([0xFF, red current_pixel, green current_pixel, blue current_pixel, alpha current_pixel],
         current_pixel, cache [hash := current_pixel], tl todo))"

lemma save_run_snd:
  "snd (save_run prev run (p # todo)) =
     (if todo \<noteq> [] \<and> qoi_pixel_equal prev (hd todo)
      then snd (save_run prev (if run + 1 = QOI_MAX_RUN_LENGTH then 0 else run + 1) todo)
      else todo)"
  by (simp add: Let_def split: prod.split)

lemma save_run_le: "length (snd (save_run prev run todo)) \<le> length todo"
proof (induction todo arbitrary: run)
  case Nil
  show ?case by simp
next
  case (Cons p todo)
  have "length (snd (save_run prev r todo)) \<le> Suc (length todo)" for r
    using Cons.IH [of r] by linarith
  then show ?case
    by (simp only: save_run_snd list.size split: if_split) simp
qed

lemma save_run_length: "length (snd (save_run prev run (p # todo))) \<le> length todo"
  by (simp only: save_run_snd save_run_le split: if_split) simp

lemma save_chunk_length:
  "save_chunk ha prev cache (p # todo) = (bytes, prev', cache', todo') \<Longrightarrow> length todo' \<le> length todo"
  using save_run_length [of prev 0 p todo]
  by (auto simp add: save_chunk_def Let_def split: if_splits prod.splits)

text \<open>The \<open>for\<close> loop over the pixels that are still to be encoded.\<close>

function save_chunks :: "bool \<Rightarrow> QoiPixel \<Rightarrow> QoiPixel list \<Rightarrow> QoiPixel list \<Rightarrow> guint8 list" where
  "save_chunks image_has_alpha previous_pixel cache [] = []"
| "save_chunks image_has_alpha previous_pixel cache (p # todo) =
     (case save_chunk image_has_alpha previous_pixel cache (p # todo) of
        (bytes, previous_pixel', cache', todo') \<Rightarrow>
          bytes @ save_chunks image_has_alpha previous_pixel' cache' todo')"
  by pat_completeness auto

termination save_chunks
  by (relation "measure (\<lambda>(ha, prev, cache, todo). length todo)")
     (auto dest!: save_chunk_length [OF sym])

declare save_chunks.simps(2) [simp del]

text \<open>
  The 14 header bytes as \<open>save_image\<close> stores them: the struct is copied over the start of
  the buffer, and the chunks overwrite what lies beyond offset 14.
\<close>

definition save_header :: "QoiImage \<Rightarrow> guint8 list" where
  "save_header qoi_image =
     qoi_magic
     @ store_guint32 (guint32_swap_local_and_big_endian (width qoi_image))
     @ store_guint32 (guint32_swap_local_and_big_endian (height qoi_image))
     @ [if has_alpha qoi_image then 4 else 3,
        case colorspace qoi_image of QOI_COLORSPACE_SRGB \<Rightarrow> 0 | QOI_COLORSPACE_LINEAR \<Rightarrow> 1]"

text \<open>
  The size passed to \<open>g_try_malloc\<close>: the sum is formed in 32-bit unsigned arithmetic.
\<close>

definition save_image_alloc :: "QoiImage \<Rightarrow> nat" where
  "save_image_alloc qoi_image =
     unat (14 + width qoi_image * height qoi_image * 5 + 8 :: guint32)"

text \<open>
  The bytes \<open>file_data[0 .. file_index)\<close> that \<open>save_image\<close> hands to \<open>fwrite\<close>. The loop
  visits the first \<open>max_pixel_index\<close> pixels of the buffer, where \<open>max_pixel_index\<close> is the
  32-bit product of the dimensions. \<open>file_index\<close> is a \<open>gint32\<close>; the model counts the
  bytes with \<open>nat\<close>, which agrees with the source while fewer than \<open>2 ^ 31\<close> bytes are
  written. Failing allocation and failing file operations are not part of the model.
\<close>

definition save_image :: "QoiImage \<Rightarrow> guint8 list" where
  "save_image qoi_image =
     (let max_pixel_index = unat (width qoi_image * height qoi_image) in
      save_header qoi_image
      @ save_chunks (has_alpha qoi_image)
          \<lparr> red = 0, green = 0, blue = 0, alpha = 255 \<rparr>
          (replicate 64 \<lparr> red = 0, green = 0, blue = 0, alpha = 0 \<rparr>)
          (take max_pixel_index (pixels qoi_image))
      @ QOI_END_MARKER)"

section \<open>Specification-side definitions\<close>

text \<open>
  The value of four bytes read as a big-endian number, as the format's description of the
  header has it; this follows the specification, not the source.
\<close>

definition spec_be32 :: "guint8 \<Rightarrow> guint8 \<Rightarrow> guint8 \<Rightarrow> guint8 \<Rightarrow> nat" where
  "spec_be32 b0 b1 b2 b3 = unat b0 * 2 ^ 24 + unat b1 * 2 ^ 16 + unat b2 * 2 ^ 8 + unat b3"

text \<open>
  Header parsing as the specification words it: at least 14 bytes, the magic, a channel
  count of 3 or 4, a colorspace of 0 or 1, both big-endian dimensions positive and within
  the maximum; the checks in this order.
\<close>

definition spec_parse_header :: "nat \<Rightarrow> guint8 list \<Rightarrow> error + QoiImage" where
  "spec_parse_header maximum bytes =
     (let w = spec_be32 (bytes ! 4) (bytes ! 5) (bytes ! 6) (bytes ! 7);
          h = spec_be32 (bytes ! 8) (bytes ! 9) (bytes ! 10) (bytes ! 11)
      in
      if length bytes < 14 then Inl UnexpectedEof
      else if take 4 bytes \<noteq> [0x71, 0x6F, 0x69, 0x66] then Inl BadMagic
      else if bytes ! 12 \<notin> {3, 4} then Inl UnsupportedChannels
      else if bytes ! 13 \<notin> {0, 1} then Inl UnsupportedColorspace
      else if w = 0 \<or> maximum < w \<or> h = 0 \<or> maximum < h then Inl InvalidDimensions
      else Inr \<lparr> pixels = [], width = of_nat w, height = of_nat h,
                 colorspace = (if bytes ! 13 = 0 then QOI_COLORSPACE_SRGB else QOI_COLORSPACE_LINEAR),
                 has_alpha = (bytes ! 12 = 4) \<rparr>)"

text \<open>
  The deltas a DIFF chunk and a LUMA chunk carry, in the arithmetic of the specification's
  table: two-bit fields biased by 2; a six-bit green delta biased by 32 and two four-bit
  fields, biased by 8, that are added to the green delta. \<open>spec_moved_by\<close> says that a
  pixel is another one moved by such deltas, each channel modulo 256, with the same alpha.
\<close>

definition spec_diff_deltas :: "guint8 \<Rightarrow> int \<times> int \<times> int" where
  "spec_diff_deltas tag = (uint tag div 16 mod 4 - 2, uint tag div 4 mod 4 - 2, uint tag mod 4 - 2)"

definition spec_luma_deltas :: "guint8 \<Rightarrow> guint8 \<Rightarrow> int \<times> int \<times> int" where
  "spec_luma_deltas tag second =
     (let dg = uint tag mod 64 - 32
      in (uint second div 16 - 8 + dg, dg, uint second mod 16 - 8 + dg))"

definition spec_moved_by :: "QoiPixel \<Rightarrow> int \<times> int \<times> int \<Rightarrow> QoiPixel \<Rightarrow> bool" where
  "spec_moved_by old deltas new =
     (case deltas of (dr, dg, db) \<Rightarrow>
        uint (red new) = (uint (red old) + dr) mod 256
        \<and> uint (green new) = (uint (green old) + dg) mod 256
        \<and> uint (blue new) = (uint (blue old) + db) mod 256
        \<and> alpha new = alpha old)"

text \<open>
  The kinds of chunk by their tag, in the order of the specification's table: the two
  exact tags first, then the top two bits.
\<close>

datatype chunk_kind = RGB | RGBA | INDEX | DIFF | LUMA | RUN

definition spec_chunk_kind :: "guint8 \<Rightarrow> chunk_kind" where
  "spec_chunk_kind tag =
     (if tag = 0xFE then RGB
      else if tag = 0xFF then RGBA
      else if drop_bit 6 tag = 0 then INDEX
      else if drop_bit 6 tag = 1 then DIFF
      else if drop_bit 6 tag = 2 then LUMA
      else RUN)"

text \<open>
  The effect the specification gives to a chunk with tag \<open>tag\<close>, from the register \<open>old\<close>
  and the cache \<open>cache\<close> to the register \<open>new\<close> and the cache \<open>cache'\<close>, where \<open>ps\<close> are
  the pixels the chunk stands for. A literal or delta chunk stands for the one new pixel
  and writes it to the slot of its hash (a list update: no other slot changes); an index
  chunk stands for the pixel in the slot its low six bits name and writes no slot; a run
  stands for copies of the register and changes nothing.
\<close>

definition spec_chunk_effect ::
  "guint8 \<Rightarrow> QoiPixel \<Rightarrow> QoiPixel list \<Rightarrow> QoiPixel list \<Rightarrow> QoiPixel \<Rightarrow> QoiPixel list \<Rightarrow> bool" where
  "spec_chunk_effect tag old cache ps new cache' =
     (case spec_chunk_kind tag of
        INDEX \<Rightarrow> ps = [new] \<and> new = cache ! (unat tag mod 64) \<and> cache' = cache
      | RUN \<Rightarrow> ps = replicate (length ps) old \<and> ps \<noteq> [] \<and> new = old \<and> cache' = cache
      | _ \<Rightarrow> ps = [new] \<and> cache' = cache [qoi_pixel_hash new := new])"


text \<open>
  The encoder's loop writes no index chunk for these pixels: the passes of \<open>save_chunk\<close>
  are followed as \<open>save_chunks\<close> follows them, and the first byte of each is tested.
\<close>

function writes_no_index :: "bool \<Rightarrow> QoiPixel \<Rightarrow> QoiPixel list \<Rightarrow> QoiPixel list \<Rightarrow> bool" where
  "writes_no_index image_has_alpha previous_pixel cache [] = True"
| "writes_no_index image_has_alpha previous_pixel cache (p # todo) =
     (case save_chunk image_has_alpha previous_pixel cache (p # todo) of
        (bytes, previous_pixel', cache', todo') \<Rightarrow>
          spec_chunk_kind (hd bytes) \<noteq> INDEX
          \<and> writes_no_index image_has_alpha previous_pixel' cache' todo')"
  by pat_completeness auto

termination writes_no_index
  by (relation "measure (\<lambda>(ha, prev, cache, todo). length todo)")
     (auto dest!: save_chunk_length [OF sym])

declare writes_no_index.simps(2) [simp del]

text \<open>
  A run chunk as the specification describes it: the two top bits set and the run length
  minus one in the low six bits.
\<close>

definition spec_run_chunk :: "nat \<Rightarrow> guint8" where
  "spec_run_chunk stored = of_nat (192 + stored)"

section \<open>Bytes and words\<close>

lemma masks32:
  "(0xFF :: guint32) = mask 8"
  "(0xFF00 :: guint32) = push_bit 8 (mask 8)"
  "(0xFF0000 :: guint32) = push_bit 16 (mask 8)"
  "(0xFF000000 :: guint32) = push_bit 24 (mask 8)"
  by (simp_all add: mask_eq_exp_minus_1)

lemma byte_cases:
  assumes "n < (32::nat)"
  obtains "n < 8" | "8 \<le> n" "n < 16" | "16 \<le> n" "n < 24" | "24 \<le> n" "n < 32"
  using assms by linarith

lemma bit8_high: "8 \<le> n \<Longrightarrow> \<not> bit (b :: guint8) n"
  using bit_imp_le_length [of b n] by auto

text \<open>Swapping what was loaded in host order reads the bytes in big-endian order.\<close>

lemma swap_load:
  "guint32_swap_local_and_big_endian (load_guint32 b0 b1 b2 b3) = load_guint32 b3 b2 b1 b0"
  unfolding guint32_swap_local_and_big_endian_def load_guint32_def masks32
proof (rule bit_word_eqI)
  fix n :: nat
  let ?v = "ucast b0 OR push_bit 8 (ucast b1) OR push_bit 16 (ucast b2) OR push_bit 24 (ucast b3)
    :: guint32"
  assume "n < LENGTH(32)"
  then have "n < 32" by simp
  then show "bit (drop_bit 24 (?v AND push_bit 24 (mask 8)) OR drop_bit 8 (?v AND push_bit 16 (mask 8))
        OR push_bit 8 (?v AND push_bit 8 (mask 8)) OR push_bit 24 (?v AND mask 8)) n =
      bit (ucast b3 OR push_bit 8 (ucast b2) OR push_bit 16 (ucast b1) OR push_bit 24 (ucast b0)
        :: guint32) n"
    by (cases n rule: byte_cases) (auto simp add: bit_simps bit8_high)
qed



lemma load_guint32_sum:
  "load_guint32 b0 b1 b2 b3 =
     ucast b0 + (push_bit 8 (ucast b1) + (push_bit 16 (ucast b2) + push_bit 24 (ucast b3)))"
proof -
  let ?a = "ucast b0 :: guint32" and ?b = "push_bit 8 (ucast b1) :: guint32"
    and ?c = "push_bit 16 (ucast b2) :: guint32" and ?d = "push_bit 24 (ucast b3) :: guint32"
  have h1: "?c AND ?d = 0"
    by (rule bit_word_eqI) (auto simp add: bit_simps bit8_high)
  have h2: "?b AND (?c OR ?d) = 0"
    by (rule bit_word_eqI) (auto simp add: bit_simps bit8_high)
  have h3: "?a AND (?b OR ?c OR ?d) = 0"
    by (rule bit_word_eqI) (auto simp add: bit_simps bit8_high)
  show ?thesis
    unfolding load_guint32_def
    using h1 h2 h3 by (simp only: disjunctive_add_eq_or)
qed

lemma unat_byte_less: "unat (b :: guint8) < 256"
  using unsigned_less [of b, where 'a = nat] by simp

lemma unat_ucast_byte: "unat (ucast (b :: guint8) :: guint32) = unat b"
  using unat_byte_less [of b] by (simp add: unsigned_ucast_eq take_bit_nat_eq_self_iff)

lemma unat_load_guint32:
  "unat (load_guint32 b0 b1 b2 b3) =
     unat b0 + unat b1 * 2 ^ 8 + unat b2 * 2 ^ 16 + unat b3 * 2 ^ 24"
  unfolding load_guint32_sum
  using unat_byte_less [of b0] unat_byte_less [of b1] unat_byte_less [of b2] unat_byte_less [of b3]
  by (simp add: unat_word_ariths push_bit_eq_mult unat_ucast_byte)

lemma unat_swap_load:
  "unat (guint32_swap_local_and_big_endian (load_guint32 b0 b1 b2 b3)) = spec_be32 b0 b1 b2 b3"
  by (simp add: swap_load unat_load_guint32 spec_be32_def)

lemma swap_load_of_nat:
  "guint32_swap_local_and_big_endian (load_guint32 b0 b1 b2 b3) = of_nat (spec_be32 b0 b1 b2 b3)"
  using unat_swap_load [of b0 b1 b2 b3] of_nat_unat [of "guint32_swap_local_and_big_endian (load_guint32 b0 b1 b2 b3)", where 'a = guint32]
  by simp

section \<open>The header\<close>

text \<open>
  C5, for every stream but the empty one. Header parsing: \<open>UnexpectedEof\<close> below 14
  bytes, then \<open>BadMagic\<close> unless the first four bytes are "qoif", then
  \<open>UnsupportedChannels\<close> unless the channel byte is 3 or 4, then \<open>UnsupportedColorspace\<close>
  unless the colorspace byte is 0 or 1, then \<open>InvalidDimensions\<close> if the big-endian width
  or height is zero or above the maximum; otherwise the decoded fields. On a stream of at
  least one byte the checks of \<open>load_image\<close> compute exactly what the specification's
  wording does.
\<close>

theorem parse_header_meets_spec:
  assumes "bytes \<noteq> []"
  shows "parse_header maximum bytes = spec_parse_header maximum bytes"
  unfolding parse_header_def spec_parse_header_def Let_def unat_swap_load [symmetric]
  using assms by (auto simp add: QOI_HEADER_SIZE_def qoi_magic_def unat_0_iff)

theorem parse_header_meets_spec_witness:
  "parse_header 524288 [0x71, 0x6F, 0x69] = Inl UnexpectedEof
   \<and> parse_header 524288 [0x71, 0x6F, 0x69, 0x66, 0, 0, 0, 2, 0, 0, 0, 1, 3, 1] =
     Inr \<lparr> pixels = [], width = 2, height = 1, colorspace = QOI_COLORSPACE_LINEAR,
           has_alpha = False \<rparr>"
  using parse_header_meets_spec [of "[0x71, 0x6F, 0x69]" 524288]
    parse_header_meets_spec [of "[0x71, 0x6F, 0x69, 0x66, 0, 0, 0, 2, 0, 0, 0, 1, 3, 1]" 524288]
  by (simp add: spec_parse_header_def spec_be32_def)

text \<open>
  C5 as stated, at the empty stream: fewer than 14 bytes are available, and the failure is
  the read failure, where the specification's wording gives \<open>UnexpectedEof\<close>.
\<close>

theorem empty_file_is_read_failure:
  "length ([] :: guint8 list) < 14
   \<and> parse_header 524288 [] = Inl ReadFailure
   \<and> parse_header 524288 [] \<noteq> Inl UnexpectedEof
   \<and> spec_parse_header 524288 [] = Inl UnexpectedEof"
  by (simp add: parse_header_def spec_parse_header_def)

section \<open>The pixel hash\<close>

text \<open>
  C8. The cache index of a pixel is \<open>(r * 3 + g * 5 + b * 7 + a * 11) mod 64\<close> over all four
  channels, and so lies between 0 and 63.
\<close>

theorem qoi_pixel_hash_value:
  "int (qoi_pixel_hash p) =
     (uint (red p) * 3 + uint (green p) * 5 + uint (blue p) * 7 + uint (alpha p) * 11) mod 64
   \<and> qoi_pixel_hash p < 64"
  by (simp add: qoi_pixel_hash_def zmod_int)


section \<open>Facts about single bytes\<close>

lemma byte_induct:
  assumes "\<forall>n \<in> set [0..<256]. P (of_nat n :: guint8)"
  shows "P b"
proof -
  have "unat b \<in> set [0..<256]"
    using unat_byte_less [of b] by simp
  with assms have "P (of_nat (unat b))" by blast
  then show ?thesis by simp
qed

lemma qoi_pixel_equal_iff: "qoi_pixel_equal a b \<longleftrightarrow> a = b"
  by (cases a, cases b) (simp add: qoi_pixel_equal_def)

lemma small_tag_cases:
  "(tag :: guint8) AND 0xC0 = 0x40 \<Longrightarrow> tag \<noteq> 0xFE \<and> tag \<noteq> 0xFF \<and> tag AND 0xC0 \<noteq> 0x00"
  "(tag :: guint8) AND 0xC0 = 0x80 \<Longrightarrow>
     tag \<noteq> 0xFE \<and> tag \<noteq> 0xFF \<and> tag AND 0xC0 \<noteq> 0x00 \<and> tag AND 0xC0 \<noteq> 0x40"
  "(tag :: guint8) AND 0xC0 = 0x00 \<Longrightarrow> tag \<noteq> 0xFE \<and> tag \<noteq> 0xFF"
  by auto

lemma diff_fields:
  "(word_of_int (uint (tag :: guint8) div 16 mod 4) :: guint8) = drop_bit 4 tag AND 0x03
   \<and> (word_of_int (uint tag div 4 mod 4) :: guint8) = drop_bit 2 tag AND 0x03
   \<and> (word_of_int (uint tag mod 4) :: guint8) = tag AND 0x03"
  by (rule byte_induct [of _ tag]) code_simp

lemma luma_fields:
  "(word_of_int (uint (tag :: guint8) mod 64) :: guint8) = tag AND 0x3F
   \<and> (word_of_int (uint tag div 16) :: guint8) = drop_bit 4 tag AND 0x0F
   \<and> (word_of_int (uint tag mod 16) :: guint8) = tag AND 0x0F"
  by (rule byte_induct [of _ tag]) code_simp

lemma uint_byte_of_int: "uint (word_of_int k :: guint8) = k mod 256"
  by (simp add: uint_word_of_int)

section \<open>Delta chunks in the decoder\<close>

lemma load_chunk_diff:
  assumes "8 \<le> length rest" and "rest ! 0 AND 0xC0 = 0x40"
  shows "load_chunk n rest st =
     Continue (store_pixel ((current_pixel st)
        \<lparr> red := word_of_int (uint (red (current_pixel st)) + (uint (rest ! 0) div 16 mod 4 - 2)),
          green := word_of_int (uint (green (current_pixel st)) + (uint (rest ! 0) div 4 mod 4 - 2)),
          blue := word_of_int (uint (blue (current_pixel st)) + (uint (rest ! 0) mod 4 - 2)) \<rparr>) st)
       (drop 1 rest)"
  using assms small_tag_cases(1) [OF assms(2)]
  by (simp add: load_chunk_def Let_def QOI_END_MARKER_SIZE_def diff_fields)

lemma load_chunk_luma:
  assumes "8 \<le> length rest" and "rest ! 0 AND 0xC0 = 0x80"
  shows "load_chunk n rest st =
     Continue (store_pixel ((current_pixel st)
        \<lparr> red := word_of_int (uint (red (current_pixel st))
                   + (uint (rest ! 1) div 16 - 8 + (uint (rest ! 0) mod 64 - 32))),
          green := word_of_int (uint (green (current_pixel st)) + (uint (rest ! 0) mod 64 - 32)),
          blue := word_of_int (uint (blue (current_pixel st))
                   + (uint (rest ! 1) mod 16 - 8 + (uint (rest ! 0) mod 64 - 32))) \<rparr>) st)
       (drop 2 rest)"
  using assms small_tag_cases(2) [OF assms(2)]
  by (simp add: load_chunk_def Let_def QOI_END_MARKER_SIZE_def luma_fields)

text \<open>
  C10. A DIFF or LUMA chunk, read where the loop reads chunks (at least 8 bytes remain),
  never fails: the loop continues, each of red, green and blue is the old channel plus the
  chunk's delta reduced modulo 256, and alpha is unchanged.
\<close>

theorem diff_luma_never_fail:
  assumes "8 \<le> length rest"
    and "rest ! 0 AND 0xC0 = 0x40 \<or> rest ! 0 AND 0xC0 = 0x80"
  shows "\<exists>st' rest'. load_chunk n rest st = Continue st' rest'
     \<and> spec_moved_by (current_pixel st)
          (if rest ! 0 AND 0xC0 = 0x40 then spec_diff_deltas (rest ! 0)
           else spec_luma_deltas (rest ! 0) (rest ! 1))
          (current_pixel st')"
proof (cases "rest ! 0 AND 0xC0 = 0x40")
  case True
  show ?thesis
    unfolding load_chunk_diff [OF assms(1) True]
    using True
    by (simp add: spec_moved_by_def spec_diff_deltas_def store_pixel_def uint_byte_of_int
        del: of_int_add of_int_diff)
next
  case False
  with assms(2) have luma: "rest ! 0 AND 0xC0 = 0x80" by simp
  show ?thesis
    unfolding load_chunk_luma [OF assms(1) luma]
    using False
    by (simp add: spec_moved_by_def spec_luma_deltas_def store_pixel_def uint_byte_of_int Let_def
        del: of_int_add of_int_diff)
qed

theorem diff_luma_never_fail_witness:
  "\<exists>st' rest'.
     load_chunk 4 [0x40, 0x01, 0, 0, 0, 0, 0, 0, 0, 1] decoder_init = Continue st' rest'
     \<and> spec_moved_by (current_pixel decoder_init) (- 2, - 2, - 2) (current_pixel st')
     \<and> red (current_pixel st') = 254"
proof -
  obtain st' rest' where
    st': "load_chunk 4 [0x40, 0x01, 0, 0, 0, 0, 0, 0, 0, 1] decoder_init = Continue st' rest'"
    and "spec_moved_by (current_pixel decoder_init)
          (if [0x40, 0x01, 0, 0, 0, 0, 0, 0, 0, 1] ! 0 AND 0xC0 = (0x40 :: guint8)
           then spec_diff_deltas ([0x40, 0x01, 0, 0, 0, 0, 0, 0, 0, 1] ! 0)
           else spec_luma_deltas ([0x40, 0x01, 0, 0, 0, 0, 0, 0, 0, 1] ! 0)
             ([0x40, 0x01, 0, 0, 0, 0, 0, 0, 0, 1] ! 1))
          (current_pixel st')"
    using diff_luma_never_fail [of "[0x40, 0x01, 0, 0, 0, 0, 0, 0, 0, 1]" 4 decoder_init]
    by auto
  then have m: "spec_moved_by (current_pixel decoder_init) (- 2, - 2, - 2) (current_pixel st')"
    by (simp add: spec_diff_deltas_def)
  then have "uint (red (current_pixel st')) = 254"
    by (simp add: spec_moved_by_def decoder_init_def)
  then have "red (current_pixel st') = 254"
    by (simp add: word_uint_eq_iff)
  with st' m show ?thesis by blast
qed

section \<open>The tags the encoder writes\<close>

lemma run_tag:
  "\<forall>r \<in> set [0..<62].
     (0xC0 OR of_nat r :: guint8) \<noteq> 0xFE \<and> (0xC0 OR of_nat r :: guint8) \<noteq> 0xFF
     \<and> (0xC0 OR of_nat r :: guint8) \<noteq> 0x00
     \<and> (0xC0 OR of_nat r :: guint8) AND 0xC0 = 0xC0
     \<and> drop_bit 6 (0xC0 OR of_nat r :: guint8) = 3
     \<and> unat (((0xC0 OR of_nat r :: guint8) AND 0x3F) + 1) = r + 1"
  by code_simp

lemma index_tag:
  "\<forall>h \<in> set [0..<64].
     (0x00 OR of_nat h :: guint8) \<noteq> 0xFE \<and> (0x00 OR of_nat h :: guint8) \<noteq> 0xFF
     \<and> (0x00 OR of_nat h :: guint8) AND 0xC0 = 0x00
     \<and> drop_bit 6 (0x00 OR of_nat h :: guint8) = 0
     \<and> unat ((0x00 OR of_nat h :: guint8) AND 0x3F) = h
     \<and> ((0x00 OR of_nat h :: guint8) = 0x00) = (h = 0)"
  by code_simp

lemma diff_tag:
  "\<forall>x \<in> set [0..<4]. \<forall>y \<in> set [0..<4]. \<forall>z \<in> set [0..<4].
     (word_of_int (0x40 OR push_bit 4 (int x) OR push_bit 2 (int y) OR push_bit 0 (int z))
        :: guint8) AND 0xC0 = 0x40
     \<and> drop_bit 6 (word_of_int (0x40 OR push_bit 4 (int x) OR push_bit 2 (int y) OR push_bit 0 (int z))
        :: guint8) = 1
     \<and> uint (word_of_int (0x40 OR push_bit 4 (int x) OR push_bit 2 (int y) OR push_bit 0 (int z))
        :: guint8) div 16 mod 4 = int x
     \<and> uint (word_of_int (0x40 OR push_bit 4 (int x) OR push_bit 2 (int y) OR push_bit 0 (int z))
        :: guint8) div 4 mod 4 = int y
     \<and> uint (word_of_int (0x40 OR push_bit 4 (int x) OR push_bit 2 (int y) OR push_bit 0 (int z))
        :: guint8) mod 4 = int z"
  by code_simp

lemma luma_tag:
  "\<forall>g \<in> set [0..<64].
     (word_of_int (0x80 OR int g) :: guint8) AND 0xC0 = 0x80
     \<and> drop_bit 6 (word_of_int (0x80 OR int g) :: guint8) = 2
     \<and> uint (word_of_int (0x80 OR int g) :: guint8) mod 64 = int g"
  by code_simp


text \<open>The three shapes of \<open>save_delta\<close>, with the fields of the chunk as natural numbers.\<close>

lemma save_delta_cases:
  fixes previous current :: QoiPixel
  defines "dr \<equiv> uint (red current) - uint (red previous)"
    and "dg \<equiv> uint (green current) - uint (green previous)"
    and "db \<equiv> uint (blue current) - uint (blue previous)"
  obtains
    (diff) x y z where "x < 4" "y < 4" "z < 4" "dr = int x - 2" "dg = int y - 2" "db = int z - 2"
      "save_delta previous current =
         [word_of_int (0x40 OR push_bit 4 (int x) OR push_bit 2 (int y) OR push_bit 0 (int z))]"
  | (luma) g x y where "g < 64" "x < 16" "y < 16" "dg = int g - 32" "dr - dg = int x - 8"
      "db - dg = int y - 8"
      "save_delta previous current =
         [word_of_int (0x80 OR int g), word_of_int (push_bit 4 (int x) OR push_bit 0 (int y))]"
  | (rgb) "save_delta previous current = [0xFE, red current, green current, blue current]"
proof -
  consider
    (a) "- 2 \<le> dr \<and> dr \<le> 1 \<and> - 2 \<le> dg \<and> dg \<le> 1 \<and> - 2 \<le> db \<and> db \<le> 1"
    | (b) "\<not> (- 2 \<le> dr \<and> dr \<le> 1 \<and> - 2 \<le> dg \<and> dg \<le> 1 \<and> - 2 \<le> db \<and> db \<le> 1)"
      "- 32 \<le> dg \<and> dg \<le> 31 \<and> - 8 \<le> dr - dg \<and> dr - dg \<le> 7 \<and> - 8 \<le> db - dg \<and> db - dg \<le> 7"
    | (c) "\<not> (- 2 \<le> dr \<and> dr \<le> 1 \<and> - 2 \<le> dg \<and> dg \<le> 1 \<and> - 2 \<le> db \<and> db \<le> 1)"
      "\<not> (- 32 \<le> dg \<and> dg \<le> 31 \<and> - 8 \<le> dr - dg \<and> dr - dg \<le> 7 \<and> - 8 \<le> db - dg \<and> db - dg \<le> 7)"
    by blast
  then show thesis
  proof cases
    case a
    have "nat (dr + 2) < 4" "nat (dg + 2) < 4" "nat (db + 2) < 4"
      "dr = int (nat (dr + 2)) - 2" "dg = int (nat (dg + 2)) - 2" "db = int (nat (db + 2)) - 2"
      using a by auto
    moreover have "save_delta previous current =
         [word_of_int (0x40 OR push_bit 4 (int (nat (dr + 2))) OR push_bit 2 (int (nat (dg + 2)))
            OR push_bit 0 (int (nat (db + 2))))]"
      using a by (simp add: save_delta_def Let_def dr_def dg_def db_def)
    ultimately show thesis by (rule diff)
  next
    case b
    have "nat (dg + 32) < 64" "nat (dr - dg + 8) < 16" "nat (db - dg + 8) < 16"
      "dg = int (nat (dg + 32)) - 32" "dr - dg = int (nat (dr - dg + 8)) - 8"
      "db - dg = int (nat (db - dg + 8)) - 8"
      using b(2) by auto
    moreover have "save_delta previous current =
         [word_of_int (0x80 OR int (nat (dg + 32))),
          word_of_int (push_bit 4 (int (nat (dr - dg + 8))) OR push_bit 0 (int (nat (db - dg + 8))))]"
      using b by (simp add: save_delta_def Let_def dr_def dg_def db_def)
    ultimately show thesis by (rule luma)
  next
    case c
    then have "save_delta previous current = [0xFE, red current, green current, blue current]"
      by (simp add: save_delta_def Let_def dr_def dg_def db_def)
    then show thesis by (rule rgb)
  qed
qed

text \<open>
  The inner loop on a run: the first pixel, then \<open>k\<close> more pixels equal to
  \<open>previous_pixel\<close>, then either the end of the buffer or a different pixel.
\<close>

lemma save_run_last:
  "todo = [] \<or> hd todo \<noteq> prev \<Longrightarrow> save_run prev run (p # todo) = ([0xC0 OR of_nat run], todo)"
  by (auto simp add: Let_def qoi_pixel_equal_iff)

lemma save_run_flush:
  "run + 1 = 62 \<Longrightarrow>
     save_run prev run (p # prev # todo) =
       (0xFD # fst (save_run prev 0 (prev # todo)), snd (save_run prev 0 (prev # todo)))"
  by (subst save_run.simps(2))
     (simp add: Let_def qoi_pixel_equal_iff QOI_MAX_RUN_LENGTH_def split: prod.split
        del: save_run.simps)

lemma save_run_count:
  "run + 1 \<noteq> 62 \<Longrightarrow>
     save_run prev run (p # prev # todo) = save_run prev (run + 1) (prev # todo)"
  by (subst save_run.simps(2))
     (simp add: Let_def qoi_pixel_equal_iff QOI_MAX_RUN_LENGTH_def split: prod.split
        del: save_run.simps)

lemma save_run_replicate:
  assumes "run < 62" and "todo = [] \<or> hd todo \<noteq> prev"
  shows "save_run prev run (p # replicate k prev @ todo) =
     (replicate ((run + k) div 62) 0xFD @ [0xC0 OR of_nat ((run + k) mod 62)], todo)"
  using assms(1)
proof (induction k arbitrary: run p)
  case 0
  then show ?case
    using save_run_last [OF assms(2), of run p] by simp
next
  case (Suc k)
  show ?case
  proof (cases "run + 1 = 62")
    case True
    have "save_run prev 0 (prev # replicate k prev @ todo) =
        (replicate ((0 + k) div 62) 0xFD @ [0xC0 OR of_nat ((0 + k) mod 62)], todo)"
      by (rule Suc.IH) simp
    moreover have "(run + Suc k) div 62 = Suc (k div 62)" "(run + Suc k) mod 62 = k mod 62"
      using True by (simp_all add: div_add1_eq mod_add_eq)
    ultimately show ?thesis
      using save_run_flush [OF True, of prev p "replicate k prev @ todo"]
      by (simp del: save_run.simps)
  next
    case False
    with Suc.prems have "run + 1 < 62" by simp
    then have "save_run prev (run + 1) (prev # replicate k prev @ todo) =
        (replicate ((run + 1 + k) div 62) 0xFD @ [0xC0 OR of_nat ((run + 1 + k) mod 62)], todo)"
      by (rule Suc.IH)
    then show ?thesis
      using save_run_count [OF False, of prev p "replicate k prev @ todo"]
      by (simp del: save_run.simps)
  qed
qed

lemma split_run:
  obtains k todo' where "todo = replicate k prev @ todo'" "todo' = [] \<or> hd todo' \<noteq> prev"
proof
  show "todo = replicate (length (takeWhile (\<lambda>q. q = prev) todo)) prev
      @ dropWhile (\<lambda>q. q = prev) todo"
    by (induction todo) simp_all
  show "dropWhile (\<lambda>q. q = prev) todo = [] \<or> hd (dropWhile (\<lambda>q. q = prev) todo) \<noteq> prev"
    using hd_dropWhile [of "\<lambda>q. q = prev" todo] by blast
qed


section \<open>The branches of the decoder's loop body\<close>

lemma load_chunk_rgb:
  assumes "8 \<le> length rest" and "rest ! 0 = 0xFE"
  shows "load_chunk n rest st =
     Continue (store_pixel ((current_pixel st) \<lparr> red := rest ! 1, green := rest ! 2,
        blue := rest ! 3 \<rparr>) st) (drop 4 rest)"
  using assms by (simp add: load_chunk_def Let_def QOI_END_MARKER_SIZE_def)

lemma load_chunk_rgba:
  assumes "8 \<le> length rest" and "rest ! 0 = 0xFF"
  shows "load_chunk n rest st =
     Continue (store_pixel ((current_pixel st) \<lparr> red := rest ! 1, green := rest ! 2,
        blue := rest ! 3, alpha := rest ! 4 \<rparr>) st) (drop 5 rest)"
  using assms by (simp add: load_chunk_def Let_def QOI_END_MARKER_SIZE_def)

lemma load_chunk_index:
  assumes "8 \<le> length rest" and "rest ! 0 AND 0xC0 = 0x00"
  shows "load_chunk n rest st =
     (if take 8 rest = QOI_END_MARKER then Break
      else Continue (st \<lparr> current_pixel := array st ! unat (rest ! 0 AND 0x3F),
                           written := written st @ [array st ! unat (rest ! 0 AND 0x3F)] \<rparr>)
             (drop 1 rest))"
  using assms small_tag_cases(3) [OF assms(2)]
  by (simp add: load_chunk_def Let_def QOI_END_MARKER_SIZE_def)

lemma load_chunk_run:
  assumes "8 \<le> length rest" and "rest ! 0 \<noteq> 0xFE" and "rest ! 0 \<noteq> 0xFF"
    and "rest ! 0 AND 0xC0 = 0xC0"
  shows "load_chunk n rest st =
     (if length (written st) > n + unat ((rest ! 0 AND 0x3F) + 1) then Failed InvalidRunLength
      else Continue (st \<lparr> written := written st
                @ replicate (unat ((rest ! 0 AND 0x3F) + 1)) (current_pixel st) \<rparr>) (drop 1 rest))"
  using assms by (simp add: load_chunk_def Let_def QOI_END_MARKER_SIZE_def)

lemma load_chunk_short: "length rest < 8 \<Longrightarrow> load_chunk n rest st = Failed UnexpectedEof"
  by (simp add: load_chunk_def QOI_END_MARKER_SIZE_def)


lemma kind_by_mask:
  "drop_bit 6 (tag :: guint8) = 0 \<longleftrightarrow> tag AND 0xC0 = 0x00"
  "drop_bit 6 (tag :: guint8) = 1 \<longleftrightarrow> tag AND 0xC0 = 0x40"
  "drop_bit 6 (tag :: guint8) = 2 \<longleftrightarrow> tag AND 0xC0 = 0x80"
  "drop_bit 6 (tag :: guint8) = 3 \<longleftrightarrow> tag AND 0xC0 = 0xC0"
  "tag AND 0xC0 = 0x00 \<or> tag AND 0xC0 = 0x40 \<or> tag AND 0xC0 = 0x80 \<or> tag AND 0xC0 = 0xC0"
  "unat (tag AND 0x3F) = unat tag mod 64"
  "0 < unat ((tag AND 0x3F) + 1)"
proof -
  have "(drop_bit 6 tag = 0 \<longleftrightarrow> tag AND 0xC0 = 0x00)
      \<and> (drop_bit 6 tag = 1 \<longleftrightarrow> tag AND 0xC0 = 0x40)
      \<and> (drop_bit 6 tag = 2 \<longleftrightarrow> tag AND 0xC0 = 0x80)
      \<and> (drop_bit 6 tag = 3 \<longleftrightarrow> tag AND 0xC0 = 0xC0)
      \<and> (tag AND 0xC0 = 0x00 \<or> tag AND 0xC0 = 0x40 \<or> tag AND 0xC0 = 0x80 \<or> tag AND 0xC0 = 0xC0)
      \<and> unat (tag AND 0x3F) = unat tag mod 64
      \<and> 0 < unat ((tag AND 0x3F) + 1)"
    by (rule byte_induct [of _ tag]) code_simp
  then show
    "drop_bit 6 tag = 0 \<longleftrightarrow> tag AND 0xC0 = 0x00"
    "drop_bit 6 tag = 1 \<longleftrightarrow> tag AND 0xC0 = 0x40"
    "drop_bit 6 tag = 2 \<longleftrightarrow> tag AND 0xC0 = 0x80"
    "drop_bit 6 tag = 3 \<longleftrightarrow> tag AND 0xC0 = 0xC0"
    "tag AND 0xC0 = 0x00 \<or> tag AND 0xC0 = 0x40 \<or> tag AND 0xC0 = 0x80 \<or> tag AND 0xC0 = 0xC0"
    "unat (tag AND 0x3F) = unat tag mod 64"
    "0 < unat ((tag AND 0x3F) + 1)"
    by blast+
qed

section \<open>What one chunk does to the cache and the register\<close>

lemma kind_of_mask:
  "tag AND 0xC0 = 0x00 \<Longrightarrow> spec_chunk_kind tag = INDEX"
  "tag AND 0xC0 = 0x40 \<Longrightarrow> spec_chunk_kind tag = DIFF"
  "tag AND 0xC0 = 0x80 \<Longrightarrow> spec_chunk_kind tag = LUMA"
  "tag AND 0xC0 = 0xC0 \<Longrightarrow> tag \<noteq> 0xFE \<Longrightarrow> tag \<noteq> 0xFF \<Longrightarrow> spec_chunk_kind tag = RUN"
  using small_tag_cases [of tag]
  by (auto simp add: spec_chunk_kind_def kind_by_mask(1-4))

lemma load_chunk_effect:
  assumes "load_chunk n rest st = Continue st' rest'"
  shows "\<exists>ps. written st' = written st @ ps
     \<and> spec_chunk_effect (rest ! 0) (current_pixel st) (array st) ps (current_pixel st') (array st')"
proof -
  have len: "8 \<le> length rest"
    using assms load_chunk_short [of rest n st] by (cases "length rest < 8") simp_all
  consider (rgb) "rest ! 0 = 0xFE" | (rgba) "rest ! 0 = 0xFF"
    | (index) "rest ! 0 AND 0xC0 = 0x00"
    | (diff) "rest ! 0 AND 0xC0 = 0x40"
    | (luma) "rest ! 0 AND 0xC0 = 0x80"
    | (run) "rest ! 0 \<noteq> 0xFE" "rest ! 0 \<noteq> 0xFF" "rest ! 0 AND 0xC0 = 0xC0"
    using kind_by_mask(5) [of "rest ! 0"] by blast
  then show ?thesis
  proof cases
    case rgb
    with assms show ?thesis
      unfolding load_chunk_rgb [OF len rgb]
      by (auto simp add: store_pixel_def spec_chunk_effect_def spec_chunk_kind_def)
  next
    case rgba
    with assms show ?thesis
      unfolding load_chunk_rgba [OF len rgba]
      by (auto simp add: store_pixel_def spec_chunk_effect_def spec_chunk_kind_def)
  next
    case index
    have "spec_chunk_kind (rest ! 0) = INDEX"
      using index by (rule kind_of_mask)
    with assms show ?thesis
      unfolding load_chunk_index [OF len index]
      by (auto simp add: spec_chunk_effect_def kind_by_mask(6) split: if_splits)
  next
    case diff
    have "spec_chunk_kind (rest ! 0) = DIFF"
      using diff by (rule kind_of_mask)
    with assms show ?thesis
      unfolding load_chunk_diff [OF len diff]
      by (auto simp add: store_pixel_def spec_chunk_effect_def simp del: of_int_add of_int_diff)
  next
    case luma
    have "spec_chunk_kind (rest ! 0) = LUMA"
      using luma by (rule kind_of_mask)
    with assms show ?thesis
      unfolding load_chunk_luma [OF len luma]
      by (auto simp add: store_pixel_def spec_chunk_effect_def simp del: of_int_add of_int_diff)
  next
    case run
    have "spec_chunk_kind (rest ! 0) = RUN"
      using run(3,1,2) by (rule kind_of_mask)
    with assms kind_by_mask(7) [of "rest ! 0"] show ?thesis
      unfolding load_chunk_run [OF len run]
      by (auto simp add: spec_chunk_effect_def split: if_splits)
  qed
qed

lemma save_delta_kind:
  "save_delta prev p \<noteq> [] \<and> spec_chunk_kind (hd (save_delta prev p)) \<in> {DIFF, LUMA, RGB}"
proof (cases prev p rule: save_delta_cases)
  case (diff x y z)
  have "x \<in> set [0..<4]" "y \<in> set [0..<4]" "z \<in> set [0..<4]"
    using diff(1-3) by simp_all
  with diff_tag
  have "(word_of_int (0x40 OR push_bit 4 (int x) OR push_bit 2 (int y) OR push_bit 0 (int z))
        :: guint8) AND 0xC0 = 0x40"
    by blast
  then have "spec_chunk_kind (word_of_int (0x40 OR push_bit 4 (int x) OR push_bit 2 (int y)
      OR push_bit 0 (int z))) = DIFF"
    by (rule kind_of_mask)
  with diff(7) show ?thesis by simp
next
  case (luma g x y)
  have "g \<in> set [0..<64]" using luma(1) by simp
  with luma_tag have "(word_of_int (0x80 OR int g) :: guint8) AND 0xC0 = 0x80" by blast
  then have "spec_chunk_kind (word_of_int (0x80 OR int g)) = LUMA"
    by (rule kind_of_mask)
  with luma(7) show ?thesis by simp
next
  case rgb
  then show ?thesis by (simp add: spec_chunk_kind_def)
qed

lemma index_tag_at:
  assumes "h < 64"
  shows "(0x00 OR of_nat h :: guint8) \<noteq> 0xFE" "(0x00 OR of_nat h :: guint8) \<noteq> 0xFF"
    "(0x00 OR of_nat h :: guint8) AND 0xC0 = 0x00"
    "unat ((0x00 OR of_nat h :: guint8) AND 0x3F) = h"
    "((0x00 OR of_nat h :: guint8) = 0x00) = (h = 0)"
proof -
  have "h \<in> set [0..<64]" using assms by simp
  with index_tag show "(0x00 OR of_nat h :: guint8) \<noteq> 0xFE" "(0x00 OR of_nat h :: guint8) \<noteq> 0xFF"
    "(0x00 OR of_nat h :: guint8) AND 0xC0 = 0x00"
    "unat ((0x00 OR of_nat h :: guint8) AND 0x3F) = h"
    "((0x00 OR of_nat h :: guint8) = 0x00) = (h = 0)"
    by blast+
qed

lemma run_tag_at:
  assumes "r < 62"
  shows "(0xC0 OR of_nat r :: guint8) \<noteq> 0xFE" "(0xC0 OR of_nat r :: guint8) \<noteq> 0xFF"
    "(0xC0 OR of_nat r :: guint8) \<noteq> 0x00"
    "(0xC0 OR of_nat r :: guint8) AND 0xC0 = 0xC0"
    "unat (((0xC0 OR of_nat r :: guint8) AND 0x3F) + 1) = r + 1"
proof -
  have "r \<in> set [0..<62]" using assms by simp
  with run_tag show "(0xC0 OR of_nat r :: guint8) \<noteq> 0xFE" "(0xC0 OR of_nat r :: guint8) \<noteq> 0xFF"
    "(0xC0 OR of_nat r :: guint8) \<noteq> 0x00"
    "(0xC0 OR of_nat r :: guint8) AND 0xC0 = 0xC0"
    "unat (((0xC0 OR of_nat r :: guint8) AND 0x3F) + 1) = r + 1"
    by blast+
qed

lemma hash_less: "qoi_pixel_hash p < 64"
  by (simp add: qoi_pixel_hash_def)

text \<open>The outcome of the loop body of the encoder, branch by branch.\<close>

lemma save_chunk_run:
  assumes "p = prev" and "todo = replicate k prev @ todo'" and "todo' = [] \<or> hd todo' \<noteq> prev"
  shows "save_chunk ha prev cache (p # todo) =
     (replicate (k div 62) 0xFD @ [0xC0 OR of_nat (k mod 62)], prev, cache, todo')"
  using assms save_run_replicate [of 0 todo' prev p k]
  by (simp add: save_chunk_def qoi_pixel_equal_iff del: save_run.simps)

lemma save_chunk_index:
  assumes "p \<noteq> prev" and "p = cache ! qoi_pixel_hash p"
  shows "save_chunk ha prev cache (p # todo) = ([0x00 OR of_nat (qoi_pixel_hash p)], p, cache, todo)"
  using assms by (simp add: save_chunk_def qoi_pixel_equal_iff Let_def del: save_run.simps)

lemma save_chunk_delta:
  assumes "p \<noteq> prev" and "p \<noteq> cache ! qoi_pixel_hash p" and "\<not> ha \<or> alpha p = alpha prev"
  shows "save_chunk ha prev cache (p # todo) =
     (save_delta prev p, p, cache [qoi_pixel_hash p := p], todo)"
  using assms by (auto simp add: save_chunk_def qoi_pixel_equal_iff Let_def simp del: save_run.simps)

lemma save_chunk_rgba:
  assumes "p \<noteq> prev" and "p \<noteq> cache ! qoi_pixel_hash p" and "ha" and "alpha p \<noteq> alpha prev"
  shows "save_chunk ha prev cache (p # todo) =
     ([0xFF, red p, green p, blue p, alpha p], p, cache [qoi_pixel_hash p := p], todo)"
  using assms by (auto simp add: save_chunk_def qoi_pixel_equal_iff Let_def simp del: save_run.simps)

lemma save_chunk_effect:
  assumes "save_chunk ha prev cache (p # todo) = (bytes, prev', cache', todo')"
  shows "\<exists>ps. p # todo = ps @ todo' \<and> bytes \<noteq> []
     \<and> spec_chunk_effect (hd bytes) prev cache ps prev' cache'"
proof -
  consider (run) "p = prev" | (index) "p \<noteq> prev" "p = cache ! qoi_pixel_hash p"
    | (delta) "p \<noteq> prev" "p \<noteq> cache ! qoi_pixel_hash p" "\<not> ha \<or> alpha p = alpha prev"
    | (rgba) "p \<noteq> prev" "p \<noteq> cache ! qoi_pixel_hash p" "ha" "alpha p \<noteq> alpha prev"
    by blast
  then show ?thesis
  proof cases
    case run
    obtain k rest where split: "todo = replicate k prev @ rest" "rest = [] \<or> hd rest \<noteq> prev"
      by (rule split_run)
    have eq: "bytes = replicate (k div 62) 0xFD @ [0xC0 OR of_nat (k mod 62)]"
      "prev' = prev" "cache' = cache" "todo' = rest"
      using trans [OF assms [symmetric] save_chunk_run [OF run split, where ha = ha and cache = cache]] by simp_all
    have "hd bytes = 0xFD \<or> hd bytes = 0xC0 OR of_nat (k mod 62)"
      unfolding eq(1) by (cases "k div 62") simp_all
    moreover have "spec_chunk_kind 0xFD = RUN" by (simp add: spec_chunk_kind_def)
    moreover have "spec_chunk_kind (0xC0 OR of_nat (k mod 62)) = RUN"
      by (rule kind_of_mask) (rule run_tag_at, simp)+
    ultimately have kind: "spec_chunk_kind (hd bytes) = RUN" by auto
    have "p # todo = replicate (Suc k) prev @ todo'"
      using run split(1) eq(4) by simp
    with kind eq show ?thesis
      unfolding spec_chunk_effect_def
      by (intro exI [of _ "replicate (Suc k) prev"]) simp
  next
    case index
    have eq: "bytes = [0x00 OR of_nat (qoi_pixel_hash p)]" "prev' = p" "cache' = cache" "todo' = todo"
      using trans [OF assms [symmetric] save_chunk_index [OF index, where ha = ha and todo = todo]] by simp_all
    have "spec_chunk_kind (0x00 OR of_nat (qoi_pixel_hash p)) = INDEX"
      by (rule kind_of_mask) (rule index_tag_at, rule hash_less)
    then have kind: "spec_chunk_kind (hd bytes) = INDEX"
      unfolding eq(1) list.sel .
    have "unat (hd bytes) mod 64 = qoi_pixel_hash p"
      unfolding eq(1) list.sel kind_by_mask(6) [symmetric]
      by (rule index_tag_at) (rule hash_less)
    with kind eq index(2) show ?thesis
      unfolding spec_chunk_effect_def
      by (intro exI [of _ "[p]"]) simp
  next
    case delta
    have eq: "bytes = save_delta prev p" "prev' = p" "cache' = cache [qoi_pixel_hash p := p]"
      "todo' = todo"
      using trans [OF assms [symmetric] save_chunk_delta [OF delta, where todo = todo]] by simp_all
    with save_delta_kind [of prev p] show ?thesis
      unfolding spec_chunk_effect_def
      by (intro exI [of _ "[p]"]) auto
  next
    case rgba
    have eq: "bytes = [0xFF, red p, green p, blue p, alpha p]" "prev' = p"
      "cache' = cache [qoi_pixel_hash p := p]" "todo' = todo"
      using trans [OF assms [symmetric] save_chunk_rgba [OF rgba, where todo = todo]] by simp_all
    then show ?thesis
      unfolding spec_chunk_effect_def
      by (intro exI [of _ "[p]"]) (simp add: spec_chunk_kind_def)
  qed
qed

text \<open>
  The loop body accepts every chunk that the loop hands to it, the end marker apart: with
  eight bytes ahead, fewer pixels stored than the image has, and no end marker at the tag,
  the outcome is \<open>Continue\<close>.
\<close>

lemma load_chunk_accepts:
  assumes "8 \<le> length rest" and "take 8 rest \<noteq> QOI_END_MARKER"
    and "length (written st) < n"
  shows "\<exists>st' rest'. load_chunk n rest st = Continue st' rest'"
proof -
  consider (rgb) "rest ! 0 = 0xFE" | (rgba) "rest ! 0 = 0xFF"
    | (index) "rest ! 0 AND 0xC0 = 0x00"
    | (diff) "rest ! 0 AND 0xC0 = 0x40"
    | (luma) "rest ! 0 AND 0xC0 = 0x80"
    | (run) "rest ! 0 \<noteq> 0xFE" "rest ! 0 \<noteq> 0xFF" "rest ! 0 AND 0xC0 = 0xC0"
    using kind_by_mask(5) [of "rest ! 0"] by blast
  then show ?thesis
  proof cases
    case rgb
    show ?thesis unfolding load_chunk_rgb [OF assms(1) rgb] by blast
  next
    case rgba
    show ?thesis unfolding load_chunk_rgba [OF assms(1) rgba] by blast
  next
    case index
    show ?thesis unfolding load_chunk_index [OF assms(1) index] using assms(2) by simp
  next
    case diff
    show ?thesis unfolding load_chunk_diff [OF assms(1) diff] by blast
  next
    case luma
    show ?thesis unfolding load_chunk_luma [OF assms(1) luma] by blast
  next
    case run
    show ?thesis unfolding load_chunk_run [OF assms(1) run] using assms(3) by simp
  qed
qed

text \<open>
  C7. In both passes a literal (RGB, RGBA) or delta (DIFF, LUMA) chunk stands for one new
  pixel, writes exactly the cache slot of that pixel's hash and makes it the register; an
  index chunk writes no slot and makes the cached pixel it names the register; a run writes
  no slot and leaves the register as it is. First the decoder: where the loop reads a chunk
  (at least 8 bytes remain, fewer pixels are stored than the image has) and the bytes at
  the tag are not the end marker, the loop body accepts the chunk and has that effect.
  Then the encoder: every pass through its loop body writes a chunk with that effect.
  \<open>ps\<close> are the pixels the chunk stands for.
\<close>

theorem chunk_cache_effect:
  assumes "8 \<le> length rest" and "take 8 rest \<noteq> QOI_END_MARKER"
    and "length (written st) < n"
  shows "(\<exists>st' rest' ps. load_chunk n rest st = Continue st' rest'
         \<and> written st' = written st @ ps
         \<and> spec_chunk_effect (rest ! 0) (current_pixel st) (array st) ps
             (current_pixel st') (array st'))
   \<and> (\<exists>bytes prev' cache' todo' ps.
         save_chunk ha prev cache (p # todo) = (bytes, prev', cache', todo')
         \<and> p # todo = ps @ todo' \<and> bytes \<noteq> []
         \<and> spec_chunk_effect (hd bytes) prev cache ps prev' cache')"
proof
  obtain st' rest' where accepted: "load_chunk n rest st = Continue st' rest'"
    using load_chunk_accepts [OF assms] by blast
  with load_chunk_effect [OF accepted]
  show "\<exists>st' rest' ps. load_chunk n rest st = Continue st' rest'
         \<and> written st' = written st @ ps
         \<and> spec_chunk_effect (rest ! 0) (current_pixel st) (array st) ps
             (current_pixel st') (array st')"
    by blast
next
  obtain bytes prev' cache' todo' where
    written: "save_chunk ha prev cache (p # todo) = (bytes, prev', cache', todo')"
    by (cases "save_chunk ha prev cache (p # todo)") blast
  with save_chunk_effect [OF written]
  show "\<exists>bytes prev' cache' todo' ps.
         save_chunk ha prev cache (p # todo) = (bytes, prev', cache', todo')
         \<and> p # todo = ps @ todo' \<and> bytes \<noteq> []
         \<and> spec_chunk_effect (hd bytes) prev cache ps prev' cache'"
    by blast
qed

theorem chunk_cache_effect_witness:
  "(\<exists>st' rest' ps.
      load_chunk 4 [0xFE, 1, 2, 3, 0, 0, 0, 0, 0, 0, 0, 1] decoder_init = Continue st' rest'
      \<and> written st' = written decoder_init @ ps
      \<and> spec_chunk_effect 0xFE (current_pixel decoder_init) (array decoder_init) ps
          (current_pixel st') (array st'))
   \<and> (\<exists>bytes prev' cache' todo' ps.
      save_chunk True \<lparr> red = 0, green = 0, blue = 0, alpha = 0 \<rparr>
          (replicate 64 \<lparr> red = 0, green = 0, blue = 0, alpha = 0 \<rparr>)
          [\<lparr> red = 1, green = 2, blue = 3, alpha = 255 \<rparr>] = (bytes, prev', cache', todo')
      \<and> [\<lparr> red = 1, green = 2, blue = 3, alpha = 255 \<rparr>] = ps @ todo' \<and> bytes \<noteq> []
      \<and> spec_chunk_effect (hd bytes) \<lparr> red = 0, green = 0, blue = 0, alpha = 0 \<rparr>
          (replicate 64 \<lparr> red = 0, green = 0, blue = 0, alpha = 0 \<rparr>) ps prev' cache')
   \<and> load_chunk 4 [0xFE, 1, 2, 3, 0, 0, 0, 0, 0, 0, 0, 1] decoder_init =
      Continue (store_pixel \<lparr> red = 1, green = 2, blue = 3, alpha = 255 \<rparr> decoder_init)
        [0, 0, 0, 0, 0, 0, 0, 1]
   \<and> save_chunk True \<lparr> red = 0, green = 0, blue = 0, alpha = 0 \<rparr>
        (replicate 64 \<lparr> red = 0, green = 0, blue = 0, alpha = 0 \<rparr>)
        [\<lparr> red = 1, green = 2, blue = 3, alpha = 255 \<rparr>] =
      ([0xFF, 1, 2, 3, 255], \<lparr> red = 1, green = 2, blue = 3, alpha = 255 \<rparr>,
       (replicate 64 \<lparr> red = 0, green = 0, blue = 0, alpha = 0 \<rparr>)
         [23 := \<lparr> red = 1, green = 2, blue = 3, alpha = 255 \<rparr>], [])"
proof -
  have d: "load_chunk 4 [0xFE, 1, 2, 3, 0, 0, 0, 0, 0, 0, 0, 1] decoder_init =
      Continue (store_pixel \<lparr> red = 1, green = 2, blue = 3, alpha = 255 \<rparr> decoder_init)
        [0, 0, 0, 0, 0, 0, 0, 1]"
    by (simp add: load_chunk_rgb decoder_init_def)
  have h: "qoi_pixel_hash \<lparr> red = 1, green = 2, blue = 3, alpha = 255 \<rparr> = 23"
    by (simp add: qoi_pixel_hash_def)
  have e: "save_chunk True \<lparr> red = 0, green = 0, blue = 0, alpha = 0 \<rparr>
        (replicate 64 \<lparr> red = 0, green = 0, blue = 0, alpha = 0 \<rparr>)
        [\<lparr> red = 1, green = 2, blue = 3, alpha = 255 \<rparr>] =
      ([0xFF, 1, 2, 3, 255], \<lparr> red = 1, green = 2, blue = 3, alpha = 255 \<rparr>,
       (replicate 64 \<lparr> red = 0, green = 0, blue = 0, alpha = 0 \<rparr>)
         [23 := \<lparr> red = 1, green = 2, blue = 3, alpha = 255 \<rparr>], [])"
    by (simp add: save_chunk_def qoi_pixel_equal_def Let_def h)
  have "8 \<le> length [0xFE, 1, 2, 3, 0, 0, 0, 0, 0, 0, 0, 1 :: guint8]"
    and "take 8 [0xFE, 1, 2, 3, 0, 0, 0, 0, 0, 0, 0, 1] \<noteq> QOI_END_MARKER"
    and "length (written decoder_init) < 4"
    by (simp_all add: QOI_END_MARKER_def decoder_init_def)
  from chunk_cache_effect [OF this, of True "\<lparr> red = 0, green = 0, blue = 0, alpha = 0 \<rparr>"
      "replicate 64 \<lparr> red = 0, green = 0, blue = 0, alpha = 0 \<rparr>"
      "\<lparr> red = 1, green = 2, blue = 3, alpha = 255 \<rparr>" "[]"]
  have "(\<exists>st' rest' ps.
      load_chunk 4 [0xFE, 1, 2, 3, 0, 0, 0, 0, 0, 0, 0, 1] decoder_init = Continue st' rest'
      \<and> written st' = written decoder_init @ ps
      \<and> spec_chunk_effect 0xFE (current_pixel decoder_init) (array decoder_init) ps
          (current_pixel st') (array st'))
   \<and> (\<exists>bytes prev' cache' todo' ps.
      save_chunk True \<lparr> red = 0, green = 0, blue = 0, alpha = 0 \<rparr>
          (replicate 64 \<lparr> red = 0, green = 0, blue = 0, alpha = 0 \<rparr>)
          [\<lparr> red = 1, green = 2, blue = 3, alpha = 255 \<rparr>] = (bytes, prev', cache', todo')
      \<and> [\<lparr> red = 1, green = 2, blue = 3, alpha = 255 \<rparr>] = ps @ todo' \<and> bytes \<noteq> []
      \<and> spec_chunk_effect (hd bytes) \<lparr> red = 0, green = 0, blue = 0, alpha = 0 \<rparr>
          (replicate 64 \<lparr> red = 0, green = 0, blue = 0, alpha = 0 \<rparr>) ps prev' cache')"
    by simp
  with d e show ?thesis by blast
qed

section \<open>The channel count of the header\<close>

lemma parse_header_channels:
  "parse_header maximum (bytes [12 := 4]) =
     map_sum id (\<lambda>r. r \<lparr> has_alpha := True \<rparr>) (parse_header maximum (bytes [12 := 3]))"
  "parse_header maximum (bytes [12 := 3]) =
     map_sum id (\<lambda>r. r \<lparr> has_alpha := False \<rparr>) (parse_header maximum (bytes [12 := 4]))"
proof -
  have nth: "bytes [12 := x] ! i = bytes ! i" if "i \<noteq> 12" for i x
    using that by simp
  have at: "bytes [12 := x] ! 12 = x" if "\<not> length bytes < 14" for x
    using that by simp
  show "parse_header maximum (bytes [12 := 4]) =
     map_sum id (\<lambda>r. r \<lparr> has_alpha := True \<rparr>) (parse_header maximum (bytes [12 := 3]))"
    unfolding parse_header_def Let_def
    by (cases "length bytes < 14") (simp_all add: nth at QOI_HEADER_SIZE_def)
  show "parse_header maximum (bytes [12 := 3]) =
     map_sum id (\<lambda>r. r \<lparr> has_alpha := False \<rparr>) (parse_header maximum (bytes [12 := 4]))"
    unfolding parse_header_def Let_def
    by (cases "length bytes < 14") (simp_all add: nth at QOI_HEADER_SIZE_def)
qed

lemma load_image_channels:
  assumes "parse_header maximum a = map_sum id (\<lambda>r. r \<lparr> has_alpha := f \<rparr>) (parse_header maximum b)"
    and "drop QOI_HEADER_SIZE a = drop QOI_HEADER_SIZE b"
  shows "load_image maximum a = map_sum id (\<lambda>r. r \<lparr> has_alpha := f \<rparr>) (load_image maximum b)"
proof (cases "parse_header maximum b")
  case (Inl e)
  then have "parse_header maximum a = Inl e" using assms(1) by simp
  with Inl show ?thesis by (simp add: load_image_def)
next
  case (Inr r)
  then have a: "parse_header maximum a = Inr (r \<lparr> has_alpha := f \<rparr>)" using assms(1) by simp
  show ?thesis
    unfolding load_image_def a Inr assms(2)
    by (simp add: Let_def split: sum.split prod.split)
qed

text \<open>
  C9. Two streams that differ only in the channel byte (offset 12), 3 in one and 4 in the
  other, decode alike: the same error, or images with the same dimensions, colorspace and
  pixels, alpha values included, that differ only in the alpha-presence flag.
\<close>

theorem channel_count_sets_flag_only:
  "load_image maximum (bytes [12 := 4]) =
     map_sum id (\<lambda>r. r \<lparr> has_alpha := True \<rparr>) (load_image maximum (bytes [12 := 3]))
   \<and> load_image maximum (bytes [12 := 3]) =
     map_sum id (\<lambda>r. r \<lparr> has_alpha := False \<rparr>) (load_image maximum (bytes [12 := 4]))"
proof
  show "load_image maximum (bytes [12 := 4]) =
     map_sum id (\<lambda>r. r \<lparr> has_alpha := True \<rparr>) (load_image maximum (bytes [12 := 3]))"
    by (rule load_image_channels, rule parse_header_channels(1)) (simp add: QOI_HEADER_SIZE_def)
  show "load_image maximum (bytes [12 := 3]) =
     map_sum id (\<lambda>r. r \<lparr> has_alpha := False \<rparr>) (load_image maximum (bytes [12 := 4]))"
    by (rule load_image_channels, rule parse_header_channels(2)) (simp add: QOI_HEADER_SIZE_def)
qed


section \<open>Runs past the end of the buffer, and an end marker met early\<close>

text \<open>
  Inside the loop \<open>pixel_index < max_pixel_index\<close> holds, so the comparison
  \<open>pixel_index > max_pixel_index + run\<close> of the run branch is never true.
\<close>

lemma load_chunk_no_run_error:
  assumes "length (written st) < n"
  shows "load_chunk n rest st \<noteq> Failed InvalidRunLength"
  using assms by (simp add: load_chunk_def Let_def)

lemma load_chunks_no_run_error: "load_chunks n rest st \<noteq> Inl InvalidRunLength"
proof (induction n rest st rule: load_chunks.induct)
  case (1 n rest st)
  show ?case
  proof (cases "length (written st) < n")
    case True
    show ?thesis
    proof (cases "load_chunk n rest st")
      case (Failed e)
      with True load_chunk_no_run_error [OF True, of rest] show ?thesis
        by (subst load_chunks.simps) auto
    next
      case Break
      with True show ?thesis by (subst load_chunks.simps) simp
    next
      case (Continue st' rest')
      with True "1.IH" [OF True Continue] show ?thesis
        by (subst load_chunks.simps) simp
    qed
  next
    case False
    then show ?thesis by (subst load_chunks.simps) simp
  qed
qed


lemma parse_header_no_run_error: "parse_header maximum bytes \<noteq> Inl InvalidRunLength"
  by (simp add: parse_header_def Let_def)

lemma load_image_no_run_error: "load_image maximum bytes \<noteq> Inl InvalidRunLength"
proof (cases "parse_header maximum bytes")
  case (Inl e)
  with parse_header_no_run_error [of maximum bytes] show ?thesis
    by (auto simp add: load_image_def)
next
  case (Inr r)
  show ?thesis
  proof (cases "load_chunks (unat (width r * height r)) (drop QOI_HEADER_SIZE bytes) decoder_init")
    case (Inl e)
    with load_chunks_no_run_error
      [of "unat (width r * height r)" "drop QOI_HEADER_SIZE bytes" decoder_init]
    have "e \<noteq> InvalidRunLength" by auto
    with Inl Inr show ?thesis by (simp add: load_image_def Let_def)
  next
    case (Inr b)
    with \<open>parse_header maximum bytes = Inr r\<close> show ?thesis
      by (cases b) (simp add: load_image_def Let_def)
  qed
qed

lemma load_chunks_done:
  "\<not> length (written st) < n \<Longrightarrow> load_chunks n rest st = Inr (st, rest)"
  by (subst load_chunks.simps) simp

lemma load_chunks_step:
  "length (written st) < n \<Longrightarrow> load_chunk n rest st = Continue st' rest' \<Longrightarrow>
     load_chunks n rest st = load_chunks n rest' st'"
  by (subst load_chunks.simps) simp

lemma load_chunks_break:
  "length (written st) < n \<Longrightarrow> load_chunk n rest st = Break \<Longrightarrow>
     load_chunks n rest st = Inr (st, drop 1 rest)"
  by (subst load_chunks.simps) simp

lemma load_chunks_failed:
  "length (written st) < n \<Longrightarrow> load_chunk n rest st = Failed e \<Longrightarrow>
     load_chunks n rest st = Inl e"
  by (subst load_chunks.simps) simp


text \<open>
  C2. A 1 x 1 image whose only chunk is a run of length 2 (tag 0xC1): the run would take the
  pixel count to 2, past width x height = 1. \<open>load_image\<close> does not fail: it stores both
  pixels, the second beyond the buffer of one pixel, and returns success.
\<close>

theorem run_overrun_is_accepted:
  "load_image 524288
     ([0x71, 0x6F, 0x69, 0x66, 0, 0, 0, 1, 0, 0, 0, 1, 4, 0] @ [0xC1] @ [0, 0, 0, 0, 0, 0, 0, 1]) =
   Inr \<lparr> pixels = [\<lparr> red = 0, green = 0, blue = 0, alpha = 255 \<rparr>,
                   \<lparr> red = 0, green = 0, blue = 0, alpha = 255 \<rparr>],
         width = 1, height = 1, colorspace = QOI_COLORSPACE_SRGB, has_alpha = True \<rparr>"
proof -
  have hdr: "parse_header 524288
      ([0x71, 0x6F, 0x69, 0x66, 0, 0, 0, 1, 0, 0, 0, 1, 4, 0] @ [0xC1] @ [0, 0, 0, 0, 0, 0, 0, 1]) =
      Inr \<lparr> pixels = [], width = 1, height = 1, colorspace = QOI_COLORSPACE_SRGB,
            has_alpha = True \<rparr>"
    by (simp add: parse_header_def QOI_HEADER_SIZE_def qoi_magic_def Let_def
        swap_load_of_nat spec_be32_def)
  have chunk: "load_chunk 1 [0xC1, 0, 0, 0, 0, 0, 0, 0, 1] decoder_init =
      Continue (decoder_init \<lparr> written := [\<lparr> red = 0, green = 0, blue = 0, alpha = 255 \<rparr>,
        \<lparr> red = 0, green = 0, blue = 0, alpha = 255 \<rparr>] \<rparr>) [0, 0, 0, 0, 0, 0, 0, 1]"
    by code_simp
  have loop: "load_chunks 1 [0xC1, 0, 0, 0, 0, 0, 0, 0, 1] decoder_init =
      Inr (decoder_init \<lparr> written := [\<lparr> red = 0, green = 0, blue = 0, alpha = 255 \<rparr>,
        \<lparr> red = 0, green = 0, blue = 0, alpha = 255 \<rparr>] \<rparr>, [0, 0, 0, 0, 0, 0, 0, 1])"
    by (subst load_chunks_step [OF _ chunk]) (simp_all add: load_chunks_done decoder_init_def)
  show ?thesis
    unfolding load_image_def hdr
    using loop by (simp add: QOI_HEADER_SIZE_def QOI_END_MARKER_SIZE_def QOI_END_MARKER_def)
qed


text \<open>
  C3. A 2 x 1 image whose chunk stream is empty: the first tag the loop reads is the first
  byte of the end marker, the eight bytes from there are the end marker, and nothing follows
  them. The loop is left with the tag already consumed, so the trailer check finds seven
  bytes and \<open>load_image\<close> fails.
\<close>

theorem early_end_marker_fails:
  "load_image 524288
     ([0x71, 0x6F, 0x69, 0x66, 0, 0, 0, 2, 0, 0, 0, 1, 4, 0] @ [0, 0, 0, 0, 0, 0, 0, 1]) =
   Inl UnexpectedEof"
proof -
  have hdr: "parse_header 524288
      ([0x71, 0x6F, 0x69, 0x66, 0, 0, 0, 2, 0, 0, 0, 1, 4, 0] @ [0, 0, 0, 0, 0, 0, 0, 1]) =
      Inr \<lparr> pixels = [], width = 2, height = 1, colorspace = QOI_COLORSPACE_SRGB,
            has_alpha = True \<rparr>"
    by (simp add: parse_header_def QOI_HEADER_SIZE_def qoi_magic_def Let_def
        swap_load_of_nat spec_be32_def)
  have chunk: "load_chunk 2 [0, 0, 0, 0, 0, 0, 0, 1] decoder_init = Break"
    by code_simp
  have loop: "load_chunks 2 [0, 0, 0, 0, 0, 0, 0, 1] decoder_init =
      Inr (decoder_init, [0, 0, 0, 0, 0, 0, 1])"
    by (subst load_chunks_break [OF _ chunk]) (simp_all add: decoder_init_def)
  show ?thesis
    unfolding load_image_def hdr
    using loop by (simp add: QOI_HEADER_SIZE_def QOI_END_MARKER_SIZE_def)
qed

text \<open>
  More generally, leaving the loop through the end-marker check never leads to success: the
  seven bytes that follow the consumed tag end in 1, so the trailer check rejects them.
\<close>

lemma load_chunk_Break:
  assumes "load_chunk n rest st = Break"
  shows "take 8 rest = QOI_END_MARKER"
  using assms
  by (simp add: load_chunk_def Let_def QOI_END_MARKER_SIZE_def split: if_splits)

lemma load_chunks_exit:
  assumes "load_chunks n rest st = Inr (st', rest')"
  shows "n \<le> length (written st') \<or> take 7 rest' = [0, 0, 0, 0, 0, 0, 1]"
  using assms
proof (induction n rest st rule: load_chunks.induct)
  case (1 n rest st)
  show ?case
  proof (cases "length (written st) < n")
    case False
    with "1.prems" show ?thesis by (simp add: load_chunks_done)
  next
    case True
    show ?thesis
    proof (cases "load_chunk n rest st")
      case (Failed e)
      with True "1.prems" show ?thesis by (simp add: load_chunks_failed)
    next
      case Break
      have "take 8 rest = [0, 0, 0, 0, 0, 0, 0, 1]"
        using load_chunk_Break [OF Break] by (simp add: QOI_END_MARKER_def)
      moreover have "take 7 (drop 1 rest) = drop 1 (take 8 rest)"
        by (simp add: drop_take)
      ultimately have "take 7 (drop 1 rest) = [0, 0, 0, 0, 0, 0, 1]"
        by simp
      with True Break "1.prems" show ?thesis by (simp add: load_chunks_break)
    next
      case (Continue st2 rest2)
      with True "1.prems" have "load_chunks n rest2 st2 = Inr (st', rest')"
        by (simp add: load_chunks_step)
      with "1.IH" [OF True Continue] show ?thesis .
    qed
  qed
qed

lemma load_image_Inr:
  assumes "load_image maximum bytes = Inr result"
  obtains r st rest where "parse_header maximum bytes = Inr r"
    "load_chunks (unat (width r * height r)) (drop QOI_HEADER_SIZE bytes) decoder_init
       = Inr (st, rest)"
    "8 \<le> length rest" "take 8 rest = QOI_END_MARKER" "result = r \<lparr> pixels := written st \<rparr>"
proof (cases "parse_header maximum bytes")
  case (Inl e)
  with assms show thesis by (simp add: load_image_def)
next
  case (Inr r)
  show thesis
  proof (cases "load_chunks (unat (width r * height r)) (drop QOI_HEADER_SIZE bytes) decoder_init")
    case (Inl e)
    with assms Inr show thesis by (simp add: load_image_def Let_def split: if_splits)
  next
    case right: (Inr b)
    obtain st rest where b: "b = (st, rest)" by (cases b)
    have "8 \<le> length rest \<and> take 8 rest = QOI_END_MARKER \<and> result = r \<lparr> pixels := written st \<rparr>"
      using assms Inr right b
      by (simp add: load_image_def Let_def QOI_END_MARKER_SIZE_def split: if_splits)
    with that [OF Inr] right b show thesis by blast
  qed
qed

lemma load_image_complete:
  assumes "load_image maximum bytes = Inr result"
  shows "unat (width result * height result) \<le> length (pixels result)"
proof -
  obtain r st rest where r: "parse_header maximum bytes = Inr r"
    and loop: "load_chunks (unat (width r * height r)) (drop QOI_HEADER_SIZE bytes) decoder_init
       = Inr (st, rest)"
    and ok: "take 8 rest = QOI_END_MARKER" "result = r \<lparr> pixels := written st \<rparr>"
    using assms by (rule load_image_Inr)
  have "take 7 rest \<noteq> [0, 0, 0, 0, 0, 0, 1]"
  proof
    assume "take 7 rest = [0, 0, 0, 0, 0, 0, 1]"
    moreover have "take 7 rest = take 7 (take 8 rest)" by simp
    ultimately show False unfolding ok(1) by (simp add: QOI_END_MARKER_def)
  qed
  with load_chunks_exit [OF loop] ok(2) show ?thesis by simp
qed


section \<open>Runs in the encoder\<close>

lemma run_chunk_or: "\<forall>r \<in> set [0..<62]. (0xC0 OR of_nat r :: guint8) = spec_run_chunk r"
  unfolding spec_run_chunk_def by code_simp

lemma save_chunks_Cons:
  "save_chunk ha prev cache (p # todo) = (bytes, prev', cache', todo') \<Longrightarrow>
     save_chunks ha prev cache (p # todo) = bytes @ save_chunks ha prev' cache' todo'"
  by (subst save_chunks.simps(2)) simp

lemma save_chunks_run:
  assumes "todo = [] \<or> hd todo \<noteq> prev"
  shows "save_chunks ha prev cache (replicate (Suc k) prev @ todo) =
     replicate (k div 62) (spec_run_chunk 61) @ [spec_run_chunk (k mod 62)]
       @ save_chunks ha prev cache todo"
proof -
  have "k mod 62 \<in> set [0..<62]" by simp
  with run_chunk_or have "(0xC0 OR of_nat (k mod 62) :: guint8) = spec_run_chunk (k mod 62)"
    by blast
  moreover have "(0xFD :: guint8) = spec_run_chunk 61"
    by (simp add: spec_run_chunk_def)
  moreover have "save_chunk ha prev cache (prev # replicate k prev @ todo) =
      (replicate (k div 62) 0xFD @ [0xC0 OR of_nat (k mod 62)], prev, cache, todo)"
    using assms by (intro save_chunk_run) simp_all
  ultimately show ?thesis
    by (simp add: save_chunks_Cons del: save_run.simps)
qed

text \<open>
  C6. A run of \<open>n\<close> pixels equal to the previous-pixel register, followed by a different
  pixel or by the end of the image, is written as \<open>(n - 1) div 62\<close> run chunks of length 62
  (stored length 61) and one last run chunk of stored length \<open>(n - 1) mod 62\<close>, that is of
  length 1 to 62. For 62 pixels this is one chunk with stored length 61, for 63 pixels a
  chunk with stored length 61 and a chunk with stored length 0.
\<close>

theorem run_coalescing:
  assumes "1 \<le> n" and "todo = [] \<or> hd todo \<noteq> prev"
  shows "save_chunks ha prev cache (replicate n prev @ todo) =
       replicate ((n - 1) div 62) (spec_run_chunk 61) @ [spec_run_chunk ((n - 1) mod 62)]
         @ save_chunks ha prev cache todo
     \<and> (n = 62 \<longrightarrow> save_chunks ha prev cache (replicate n prev @ todo) =
           [spec_run_chunk 61] @ save_chunks ha prev cache todo)
     \<and> (n = 63 \<longrightarrow> save_chunks ha prev cache (replicate n prev @ todo) =
           [spec_run_chunk 61, spec_run_chunk 0] @ save_chunks ha prev cache todo)"
proof -
  obtain k where n: "n = Suc k" using assms(1) by (cases n) simp_all
  have general: "save_chunks ha prev cache (replicate n prev @ todo) =
       replicate ((n - 1) div 62) (spec_run_chunk 61) @ [spec_run_chunk ((n - 1) mod 62)]
         @ save_chunks ha prev cache todo"
    unfolding n using save_chunks_run [OF assms(2), of ha cache k] by simp
  have "n = 62 \<Longrightarrow> (n - 1) div 62 = 0 \<and> (n - 1) mod 62 = 61"
    and "n = 63 \<Longrightarrow> (n - 1) div 62 = 1 \<and> (n - 1) mod 62 = 0"
    by simp_all
  with general show ?thesis by auto
qed

theorem run_coalescing_witness:
  "save_chunks True \<lparr> red = 0, green = 0, blue = 0, alpha = 255 \<rparr>
     (replicate 64 \<lparr> red = 0, green = 0, blue = 0, alpha = 0 \<rparr>)
     (replicate 62 \<lparr> red = 0, green = 0, blue = 0, alpha = 255 \<rparr>
        @ [\<lparr> red = 1, green = 2, blue = 3, alpha = 255 \<rparr>]) =
   [0xFD, 0xA2, 0x79]"
proof -
  have next_chunk: "save_chunks True \<lparr> red = 0, green = 0, blue = 0, alpha = 255 \<rparr>
       (replicate 64 \<lparr> red = 0, green = 0, blue = 0, alpha = 0 \<rparr>)
       [\<lparr> red = 1, green = 2, blue = 3, alpha = 255 \<rparr>] = [0xA2, 0x79]"
    by code_simp
  have "save_chunks True \<lparr> red = 0, green = 0, blue = 0, alpha = 255 \<rparr>
     (replicate 64 \<lparr> red = 0, green = 0, blue = 0, alpha = 0 \<rparr>)
     (replicate 62 \<lparr> red = 0, green = 0, blue = 0, alpha = 255 \<rparr>
        @ [\<lparr> red = 1, green = 2, blue = 3, alpha = 255 \<rparr>]) =
     [spec_run_chunk 61] @ save_chunks True
       \<lparr> red = 0, green = 0, blue = 0, alpha = 255 \<rparr>
       (replicate 64 \<lparr> red = 0, green = 0, blue = 0, alpha = 0 \<rparr>)
       [\<lparr> red = 1, green = 2, blue = 3, alpha = 255 \<rparr>]"
    using run_coalescing [of 62 "[\<lparr> red = 1, green = 2, blue = 3, alpha = 255 \<rparr>]"
        "\<lparr> red = 0, green = 0, blue = 0, alpha = 255 \<rparr>" True
        "replicate 64 \<lparr> red = 0, green = 0, blue = 0, alpha = 0 \<rparr>"]
    by simp
  then show ?thesis
    unfolding next_chunk by (simp add: spec_run_chunk_def)
qed

section \<open>Decoding what the encoder wrote, chunk by chunk\<close>







section \<open>Decoding what the encoder wrote: the whole chunk stream\<close>






section \<open>Decoding what the encoder wrote for an image without alpha\<close>






section \<open>Encoding, then decoding\<close>


lemma save_header_length: "length (save_header qoi_image) = 14"
  by (simp add: save_header_def store_guint32_def qoi_magic_def)







text \<open>
  An image without alpha for which the encoder writes an index chunk, and whose pixels
  carry an alpha value other than 255, can lose more than alpha. \<open>save_image\<close> compares and
  hashes the pixels of the buffer, alpha included, although it writes no alpha; \<open>load_image\<close>
  rebuilds every pixel with alpha 255 and files it under the hash of that pixel. In the
  3 x 1 image below the third pixel equals the first. The encoder finds it in slot 35, where
  it filed the first pixel under alpha 7, and writes an index chunk for slot 35; the decoder
  filed its first pixel in slot 11 and its second in slot 17, so slot 35 still holds the
  initial (0,0,0,0), and that is the third pixel of the result.
\<close>

lemma alpha_absent_index_encoding:
  "save_image \<lparr> pixels = [\<lparr> red = 10, green = 10, blue = 10, alpha = 7 \<rparr>,
                            \<lparr> red = 100, green = 100, blue = 100, alpha = 7 \<rparr>,
                            \<lparr> red = 10, green = 10, blue = 10, alpha = 7 \<rparr>],
                   width = 3, height = 1, colorspace = QOI_COLORSPACE_SRGB,
                   has_alpha = False \<rparr> =
    [0x71, 0x6F, 0x69, 0x66, 0, 0, 0, 3, 0, 0, 0, 1, 3, 0]
    @ [0xAA, 0x88, 0xFE, 0x64, 0x64, 0x64, 0x23, 0, 0, 0, 0, 0, 0, 0, 1]"
  by code_simp

lemma alpha_absent_index_decoding:
  "load_image 524288
     ([0x71, 0x6F, 0x69, 0x66, 0, 0, 0, 3, 0, 0, 0, 1, 3, 0]
      @ [0xAA, 0x88, 0xFE, 0x64, 0x64, 0x64, 0x23, 0, 0, 0, 0, 0, 0, 0, 1]) =
   Inr \<lparr> pixels = [\<lparr> red = 10, green = 10, blue = 10, alpha = 255 \<rparr>,
                   \<lparr> red = 100, green = 100, blue = 100, alpha = 255 \<rparr>,
                   \<lparr> red = 0, green = 0, blue = 0, alpha = 0 \<rparr>],
         width = 3, height = 1, colorspace = QOI_COLORSPACE_SRGB, has_alpha = False \<rparr>"
proof -
  let ?a = "\<lparr> red = 10, green = 10, blue = 10, alpha = 255 \<rparr> :: QoiPixel"
  let ?b = "\<lparr> red = 100, green = 100, blue = 100, alpha = 255 \<rparr> :: QoiPixel"
  let ?z = "\<lparr> red = 0, green = 0, blue = 0, alpha = 0 \<rparr> :: QoiPixel"
  let ?st1 = "\<lparr> current_pixel = ?a, array = (replicate 64 ?z) [11 := ?a], written = [?a] \<rparr>"
  let ?st2 = "\<lparr> current_pixel = ?b, array = (replicate 64 ?z) [11 := ?a, 17 := ?b],
      written = [?a, ?b] \<rparr>"
  let ?st3 = "\<lparr> current_pixel = ?z, array = (replicate 64 ?z) [11 := ?a, 17 := ?b],
      written = [?a, ?b, ?z] \<rparr>"
  have hdr: "parse_header 524288
      ([0x71, 0x6F, 0x69, 0x66, 0, 0, 0, 3, 0, 0, 0, 1, 3, 0]
       @ [0xAA, 0x88, 0xFE, 0x64, 0x64, 0x64, 0x23, 0, 0, 0, 0, 0, 0, 0, 1]) =
      Inr \<lparr> pixels = [], width = 3, height = 1, colorspace = QOI_COLORSPACE_SRGB,
            has_alpha = False \<rparr>"
    by (simp add: parse_header_def QOI_HEADER_SIZE_def qoi_magic_def Let_def
        swap_load_of_nat spec_be32_def)
  have chunk1: "load_chunk 3 [0xAA, 0x88, 0xFE, 0x64, 0x64, 0x64, 0x23, 0, 0, 0, 0, 0, 0, 0, 1]
        decoder_init =
      Continue ?st1 [0xFE, 0x64, 0x64, 0x64, 0x23, 0, 0, 0, 0, 0, 0, 0, 1]"
    by code_simp
  have chunk2: "load_chunk 3 [0xFE, 0x64, 0x64, 0x64, 0x23, 0, 0, 0, 0, 0, 0, 0, 1] ?st1 =
      Continue ?st2 [0x23, 0, 0, 0, 0, 0, 0, 0, 1]"
    by code_simp
  have chunk3: "load_chunk 3 [0x23, 0, 0, 0, 0, 0, 0, 0, 1] ?st2 =
      Continue ?st3 [0, 0, 0, 0, 0, 0, 0, 1]"
    by code_simp
  have "load_chunks 3 [0x23, 0, 0, 0, 0, 0, 0, 0, 1] ?st2 = Inr (?st3, [0, 0, 0, 0, 0, 0, 0, 1])"
    by (subst load_chunks_step [OF _ chunk3]) (simp_all add: load_chunks_done)
  then have "load_chunks 3 [0xFE, 0x64, 0x64, 0x64, 0x23, 0, 0, 0, 0, 0, 0, 0, 1] ?st1 =
      Inr (?st3, [0, 0, 0, 0, 0, 0, 0, 1])"
    by (subst load_chunks_step [OF _ chunk2]) simp_all
  then have loop: "load_chunks 3 [0xAA, 0x88, 0xFE, 0x64, 0x64, 0x64, 0x23, 0, 0, 0, 0, 0, 0, 0, 1]
        decoder_init = Inr (?st3, [0, 0, 0, 0, 0, 0, 0, 1])"
    by (subst load_chunks_step [OF _ chunk1]) (simp_all add: decoder_init_def)
  show ?thesis
    unfolding load_image_def hdr
    using loop
    by (simp add: QOI_HEADER_SIZE_def QOI_END_MARKER_SIZE_def QOI_END_MARKER_def)
qed

lemma alpha_absent_index_chunk:
  "load_image 524288
     (save_image \<lparr> pixels = [\<lparr> red = 10, green = 10, blue = 10, alpha = 7 \<rparr>,
                              \<lparr> red = 100, green = 100, blue = 100, alpha = 7 \<rparr>,
                              \<lparr> red = 10, green = 10, blue = 10, alpha = 7 \<rparr>],
                   width = 3, height = 1, colorspace = QOI_COLORSPACE_SRGB,
                   has_alpha = False \<rparr>) =
   Inr \<lparr> pixels = [\<lparr> red = 10, green = 10, blue = 10, alpha = 255 \<rparr>,
                   \<lparr> red = 100, green = 100, blue = 100, alpha = 255 \<rparr>,
                   \<lparr> red = 0, green = 0, blue = 0, alpha = 0 \<rparr>],
         width = 3, height = 1, colorspace = QOI_COLORSPACE_SRGB, has_alpha = False \<rparr>
   \<and> \<not> writes_no_index False \<lparr> red = 0, green = 0, blue = 0, alpha = 255 \<rparr>
       (replicate 64 \<lparr> red = 0, green = 0, blue = 0, alpha = 0 \<rparr>)
       [\<lparr> red = 10, green = 10, blue = 10, alpha = 7 \<rparr>,
        \<lparr> red = 100, green = 100, blue = 100, alpha = 7 \<rparr>,
        \<lparr> red = 10, green = 10, blue = 10, alpha = 7 \<rparr>]"
proof -
  have "\<not> writes_no_index False \<lparr> red = 0, green = 0, blue = 0, alpha = 255 \<rparr>
       (replicate 64 \<lparr> red = 0, green = 0, blue = 0, alpha = 0 \<rparr>)
       [\<lparr> red = 10, green = 10, blue = 10, alpha = 7 \<rparr>,
        \<lparr> red = 100, green = 100, blue = 100, alpha = 7 \<rparr>,
        \<lparr> red = 10, green = 10, blue = 10, alpha = 7 \<rparr>]"
    by code_simp
  then show ?thesis
    unfolding alpha_absent_index_encoding alpha_absent_index_decoding by simp
qed

section \<open>The size of the encoding\<close>

lemma save_delta_length: "length (save_delta prev p) \<le> 4 \<and> save_delta prev p \<noteq> []"
  by (cases prev p rule: save_delta_cases) simp_all

text \<open>No chunk takes more than five bytes per pixel it stands for.\<close>

lemma save_chunks_length:
  "length (save_chunks ha prev cache todo) \<le> QOI_MAX_BYTES_PER_PIXEL * length todo"
proof (induction "length todo" arbitrary: todo prev cache rule: less_induct)
  case less
  show ?case
  proof (cases todo)
    case Nil
    then show ?thesis by simp
  next
    case (Cons p rest)
    consider (run) "p = prev" | (index) "p \<noteq> prev" "p = cache ! qoi_pixel_hash p"
      | (delta) "p \<noteq> prev" "p \<noteq> cache ! qoi_pixel_hash p" "\<not> ha \<or> alpha p = alpha prev"
      | (rgba) "p \<noteq> prev" "p \<noteq> cache ! qoi_pixel_hash p" "ha" "alpha p \<noteq> alpha prev"
      by blast
    then show ?thesis
    proof cases
      case run
      obtain k rest' where split: "rest = replicate k prev @ rest'" "rest' = [] \<or> hd rest' \<noteq> prev"
        by (rule split_run)
      have "save_chunks ha prev cache todo =
          (replicate (k div 62) 0xFD @ [0xC0 OR of_nat (k mod 62)]) @ save_chunks ha prev cache rest'"
        unfolding Cons by (rule save_chunks_Cons) (rule save_chunk_run [OF run split])
      moreover have "length (save_chunks ha prev cache rest') \<le> QOI_MAX_BYTES_PER_PIXEL * length rest'"
        using Cons split(1) by (intro less.hyps) simp
      moreover have "length todo = Suc k + length rest'"
        using Cons split(1) by simp
      moreover have "k div 62 \<le> k" by simp
      ultimately show ?thesis by (simp add: QOI_MAX_BYTES_PER_PIXEL_def)
    next
      case index
      have "save_chunks ha prev cache todo =
          [0x00 OR of_nat (qoi_pixel_hash p)] @ save_chunks ha p cache rest"
        unfolding Cons by (rule save_chunks_Cons) (rule save_chunk_index [OF index])
      moreover have "length (save_chunks ha p cache rest) \<le> QOI_MAX_BYTES_PER_PIXEL * length rest"
        using Cons by (intro less.hyps) simp
      ultimately show ?thesis using Cons by (simp add: QOI_MAX_BYTES_PER_PIXEL_def)
    next
      case delta
      have "save_chunks ha prev cache todo =
          save_delta prev p @ save_chunks ha p (cache [qoi_pixel_hash p := p]) rest"
        unfolding Cons by (rule save_chunks_Cons) (rule save_chunk_delta [OF delta])
      moreover have "length (save_chunks ha p (cache [qoi_pixel_hash p := p]) rest)
          \<le> QOI_MAX_BYTES_PER_PIXEL * length rest"
        using Cons by (intro less.hyps) simp
      ultimately show ?thesis
        using Cons save_delta_length [of prev p] by (simp add: QOI_MAX_BYTES_PER_PIXEL_def)
    next
      case rgba
      have "save_chunks ha prev cache todo =
          [0xFF, red p, green p, blue p, alpha p]
            @ save_chunks ha p (cache [qoi_pixel_hash p := p]) rest"
        unfolding Cons by (rule save_chunks_Cons) (rule save_chunk_rgba [OF rgba])
      moreover have "length (save_chunks ha p (cache [qoi_pixel_hash p := p]) rest)
          \<le> QOI_MAX_BYTES_PER_PIXEL * length rest"
        using Cons by (intro less.hyps) simp
      ultimately show ?thesis using Cons by (simp add: QOI_MAX_BYTES_PER_PIXEL_def)
    qed
  qed
qed

text \<open>
  On mathematical integers the bytes stay within 14 + width x height x 5 + 8, and the
  buffer starts with the header and ends with the end marker.
\<close>

lemma save_image_length:
  assumes "length (pixels qoi_image) = unat (width qoi_image) * unat (height qoi_image)"
  shows "length (save_image qoi_image) \<le>
     QOI_HEADER_SIZE + unat (width qoi_image) * unat (height qoi_image) * QOI_MAX_BYTES_PER_PIXEL
       + QOI_END_MARKER_SIZE"
proof -
  let ?todo = "take (unat (width qoi_image * height qoi_image)) (pixels qoi_image)"
  have "length (save_chunks (has_alpha qoi_image) \<lparr> red = 0, green = 0, blue = 0, alpha = 255 \<rparr>
          (replicate 64 \<lparr> red = 0, green = 0, blue = 0, alpha = 0 \<rparr>) ?todo)
      \<le> QOI_MAX_BYTES_PER_PIXEL * length ?todo"
    by (rule save_chunks_length)
  moreover have "length ?todo \<le> unat (width qoi_image) * unat (height qoi_image)"
    using assms by simp
  ultimately show ?thesis
    by (simp add: save_image_def save_header_length QOI_END_MARKER_def QOI_HEADER_SIZE_def
        QOI_END_MARKER_SIZE_def QOI_MAX_BYTES_PER_PIXEL_def Let_def)
qed

text \<open>
  The allocation is computed in 32-bit unsigned arithmetic: where the sum does not wrap,
  it is the bound above. The index \<open>file_index\<close> that counts the bytes written is a
  \<open>gint32\<close>: where the bound is below \<open>2 ^ 31\<close>, the index is exact as well and the
  encoder stays within the allocation.
\<close>

lemma save_image_alloc_exact:
  assumes "14 + unat (width qoi_image) * unat (height qoi_image) * 5 + 8 < 2 ^ 32"
  shows "save_image_alloc qoi_image = 14 + unat (width qoi_image) * unat (height qoi_image) * 5 + 8"
proof -
  have "save_image_alloc qoi_image =
      (14 + unat (width qoi_image) * unat (height qoi_image) * 5 + 8) mod 2 ^ 32"
    by (simp add: save_image_alloc_def unat_word_ariths mod_simps)
  with assms show ?thesis by simp
qed

lemma save_image_within_allocation:
  assumes "length (pixels qoi_image) = unat (width qoi_image) * unat (height qoi_image)"
    and "14 + unat (width qoi_image) * unat (height qoi_image) * 5 + 8 < 2 ^ 31"
  shows "length (save_image qoi_image) \<le> save_image_alloc qoi_image"
proof -
  have "14 + unat (width qoi_image) * unat (height qoi_image) * 5 + 8 < 2 ^ 32"
    using assms(2) by simp
  from save_image_length [OF assms(1)] save_image_alloc_exact [OF this]
  show ?thesis
    by (simp add: QOI_HEADER_SIZE_def QOI_END_MARKER_SIZE_def QOI_MAX_BYTES_PER_PIXEL_def)
qed


text \<open>
  Two pixels with the same hash and different alpha, alternating: each one differs from the
  register, is not in its cache slot and changes alpha, so each costs an RGBA chunk of five
  bytes.
\<close>

lemma save_chunks_alternating:
  assumes "a \<noteq> b" and "alpha a \<noteq> alpha b" and "qoi_pixel_hash a = h" and "qoi_pixel_hash b = h"
    and "h < length cache" and "prev \<noteq> a" and "alpha prev \<noteq> alpha a" and "cache ! h \<noteq> a"
  shows "length (save_chunks True prev cache (concat (replicate m [a, b]))) = 10 * m"
  using assms(5-8)
proof (induction m arbitrary: prev cache)
  case 0
  show ?case by simp
next
  case (Suc m)
  let ?rest = "concat (replicate m [a, b])"
  let ?cache1 = "cache [qoi_pixel_hash a := a]"
  let ?cache2 = "?cache1 [qoi_pixel_hash b := b]"
  have first: "save_chunk True prev cache (a # b # ?rest) =
      ([0xFF, red a, green a, blue a, alpha a], a, ?cache1, b # ?rest)"
    using Suc.prems assms(3) by (intro save_chunk_rgba) auto
  have "?cache1 ! qoi_pixel_hash b = a"
    using Suc.prems(1) assms(3,4) by simp
  then have second: "save_chunk True a ?cache1 (b # ?rest) =
      ([0xFF, red b, green b, blue b, alpha b], b, ?cache2, ?rest)"
    using assms(1,2) by (intro save_chunk_rgba) auto
  have "length (save_chunks True b ?cache2 ?rest) = 10 * m"
    using Suc.prems(1) assms(1-4) by (intro Suc.IH) auto
  then show ?case
    by (simp add: save_chunks_Cons [OF first] save_chunks_Cons [OF second])
qed

text \<open>
  C4. A 32768 x 32768 image with alpha whose pixels alternate between (0,0,0,64) and
  (0,0,0,128). The size passed to the allocator is 14 + 32768 * 32768 * 5 + 8 in 32-bit
  arithmetic, which is 1073741846; the loop writes five bytes for each of the 2^30 pixels.
\<close>

theorem encoder_overruns_allocation:
  "save_image_alloc
     \<lparr> pixels = concat (replicate 536870912
          [\<lparr> red = 0, green = 0, blue = 0, alpha = 64 \<rparr>,
           \<lparr> red = 0, green = 0, blue = 0, alpha = 128 \<rparr>]),
       width = 32768, height = 32768, colorspace = QOI_COLORSPACE_SRGB, has_alpha = True \<rparr>
     = 1073741846
   \<and> length (save_image
     \<lparr> pixels = concat (replicate 536870912
          [\<lparr> red = 0, green = 0, blue = 0, alpha = 64 \<rparr>,
           \<lparr> red = 0, green = 0, blue = 0, alpha = 128 \<rparr>]),
       width = 32768, height = 32768, colorspace = QOI_COLORSPACE_SRGB, has_alpha = True \<rparr>)
     = 5368709142"
proof -
  let ?a = "\<lparr> red = 0, green = 0, blue = 0, alpha = 64 \<rparr> :: QoiPixel"
  let ?b = "\<lparr> red = 0, green = 0, blue = 0, alpha = 128 \<rparr> :: QoiPixel"
  have len: "length (concat (replicate m [?a, ?b])) = 2 * m" for m
    by (induction m) simp_all
  have chunks: "length (save_chunks True \<lparr> red = 0, green = 0, blue = 0, alpha = 255 \<rparr>
        (replicate 64 \<lparr> red = 0, green = 0, blue = 0, alpha = 0 \<rparr>)
        (concat (replicate m [?a, ?b]))) = 10 * m" for m
    by (rule save_chunks_alternating [where h = 0]) (simp_all add: qoi_pixel_hash_def)
  have n: "unat (32768 * 32768 :: guint32) = 2 * 536870912"
    by simp
  have all: "take (2 * 536870912) (concat (replicate 536870912 [?a, ?b])) =
      concat (replicate 536870912 [?a, ?b])"
    by (rule take_all) (simp only: len)
  have "save_image_alloc
     \<lparr> pixels = concat (replicate 536870912 [?a, ?b]),
       width = 32768, height = 32768, colorspace = QOI_COLORSPACE_SRGB, has_alpha = True \<rparr>
     = 1073741846"
    by (simp add: save_image_alloc_def)
  moreover have "length (save_image
     \<lparr> pixels = concat (replicate 536870912 [?a, ?b]),
       width = 32768, height = 32768, colorspace = QOI_COLORSPACE_SRGB, has_alpha = True \<rparr>)
     = 5368709142"
    unfolding save_image_def Let_def QoiImage.simps n all
    by (simp only: length_append save_header_length chunks) (simp add: QOI_END_MARKER_def)
  ultimately show ?thesis by (rule conjI)
qed

end
